theory Spec2Isabelle
  imports Main "HOL-Library.Word" "HOL-Library.Sublist"
begin

unbundle bit_operations_syntax

section \<open>Errors\<close>

text \<open>
  Go errors as values. The sentinels are the ones \<^verbatim>\<open>event_loop.go\<close> compares against:
  \<^verbatim>\<open>pmapi.ErrAPINotReachable\<close>, \<^verbatim>\<open>pmapi.ErrUpgradeApplication\<close>, \<^verbatim>\<open>pmapi.ErrInvalidToken\<close>,
  the error type \<^verbatim>\<open>*pmapi.ErrUnauthorized\<close> (matched by a type assertion, so it carries a
  payload) and the store's \<^verbatim>\<open>ErrNoSuchAPIID\<close>. \<open>ErrOther\<close> is any other error value and
  \<open>Wrap e msg\<close> is \<^verbatim>\<open>errors.Wrap(e, msg)\<close> of \<^verbatim>\<open>github.com/pkg/errors\<close>.
  A nil error is \<open>None\<close> of \<open>error option\<close>.
\<close>

datatype error =
    ErrAPINotReachable
  | ErrUpgradeApplication
  | ErrInvalidToken
  | ErrUnauthorized string
  | ErrNoSuchAPIID
  | ErrOther string
  | Wrap error string

text \<open>\<^verbatim>\<open>errors.Cause\<close>: follow the chain of wrappers down to the first error that is not one.\<close>

fun Cause :: "error \<Rightarrow> error" where
  "Cause (Wrap e msg) = Cause e"
| "Cause e = e"

text \<open>\<^verbatim>\<open>errors.Cause\<close> on a possibly nil error: the loop over the chain stops at nil.\<close>

fun CauseOpt :: "error option \<Rightarrow> error option" where
  "CauseOpt None = None"
| "CauseOpt (Some e) = Some (Cause e)"

text \<open>The type assertion \<^verbatim>\<open>_, errUnauthorized := errors.Cause(err).(*pmapi.ErrUnauthorized)\<close>.\<close>

fun isErrUnauthorized :: "error option \<Rightarrow> bool" where
  "isErrUnauthorized (Some (ErrUnauthorized m)) = True"
| "isErrUnauthorized e = False"

text \<open>
  What a call can end with: a nil error, an error, or a nil-pointer panic (the address
  applier dereferences the delta's \<^verbatim>\<open>Address\<close> pointer without a check).
\<close>

datatype result = Ok | Err error | Panic

section \<open>Data model\<close>

text \<open>
  The structs of package \<^verbatim>\<open>pmapi\<close> with the fields that \<^verbatim>\<open>event_loop.go\<close> reads or writes.
  A pointer field that the source tests against nil is an \<open>option\<close>; a slice that it tests
  against nil is a \<open>list option\<close>.
\<close>

datatype EventAction = EventDelete | EventCreate | EventUpdate | EventUpdateFlags | EventActionOther nat

record mailAddress =
  mail_Name :: string
  mail_Address :: string

record Address =
  addr_ID :: string
  Email :: string
  Receive :: int

record EventAddress =
  ea_ID :: string
  ea_Action :: EventAction
  ea_Address :: "Address option"

record Label =
  lbl_ID :: string
  lbl_Name :: string

record EventLabel =
  el_ID :: string
  el_Action :: EventAction
  el_Label :: "Label option"

record Message =
  msg_ID :: string
  Time :: "64 word"
  Subject :: string
  Sender :: "mailAddress option"
  ToList :: "mailAddress list"
  CCList :: "mailAddress list"
  BCCList :: "mailAddress list"
  Unread :: int
  Flags :: "64 word"
  LabelIDs :: "string list"

record EventMessageUpdated =
  upd_ID :: string
  upd_Time :: "64 word"
  upd_Subject :: "string option"
  upd_Sender :: "mailAddress option"
  upd_ToList :: "mailAddress list option"
  upd_CCList :: "mailAddress list option"
  upd_BCCList :: "mailAddress list option"
  upd_Unread :: "int option"
  upd_Flags :: "64 word option"
  upd_LabelIDs :: "string list option"
  LabelIDsAdded :: "string list"
  LabelIDsRemoved :: "string list"

record EventMessage =
  em_ID :: string
  em_Action :: EventAction
  Created :: "Message option"
  Updated :: "EventMessageUpdated option"

record MessagesCount =
  LabelID :: string
  Total :: int
  mc_Unread :: int

record Event =
  EventID :: string
  Refresh :: "32 word"
  Messages :: "EventMessage list"
  MessageCounts :: "MessagesCount list"
  Labels :: "EventLabel list"
  Addresses :: "EventAddress list"
  Notices :: "string list"
  More :: int

text \<open>
  Modelled from the spec: the constant \<^verbatim>\<open>pmapi.EventRefreshMail\<close> is declared outside the
  source file; the spec gives the \<^verbatim>\<open>Refresh\<close> bitmask as a uint32 with \<^verbatim>\<open>MAIL = 1\<close>.
\<close>

definition EventRefreshMail :: "32 word" where
  "EventRefreshMail = 1"

section \<open>The patch merge: \<^verbatim>\<open>updateMessage\<close>\<close>

text \<open>
  The inner loop of the first label loop: \<^verbatim>\<open>hasLabel\<close> becomes true, and the loop breaks,
  at the first element of \<^verbatim>\<open>message.LabelIDs\<close> equal to \<^verbatim>\<open>added\<close>.
\<close>

fun hasLabel :: "string \<Rightarrow> string list \<Rightarrow> bool" where
  "hasLabel added [] = False"
| "hasLabel added (l # ls) = (if added = l then True else hasLabel added ls)"

text \<open>
  The loop over \<^verbatim>\<open>updates.LabelIDsAdded\<close>; the second argument is \<^verbatim>\<open>message.LabelIDs\<close>,
  which grows by \<^verbatim>\<open>append\<close> while the loop runs.
\<close>

fun addLabels :: "string list \<Rightarrow> string list \<Rightarrow> string list" where
  "addLabels [] labelIDs = labelIDs"
| "addLabels (added # rest) labelIDs =
     (if \<not> hasLabel added labelIDs then addLabels rest (labelIDs @ [added])
      else addLabels rest labelIDs)"

text \<open>The inner loop of the second label loop, over \<^verbatim>\<open>updates.LabelIDsRemoved\<close>.\<close>

fun removeLabel :: "string \<Rightarrow> string list \<Rightarrow> bool" where
  "removeLabel l [] = False"
| "removeLabel l (removed # rs) = (if removed = l then True else removeLabel l rs)"

text \<open>
  The loop over \<^verbatim>\<open>message.LabelIDs\<close> that builds \<^verbatim>\<open>labels\<close>, starting from
  \<^verbatim>\<open>[]string{}\<close>; the last argument is \<^verbatim>\<open>labels\<close>.
\<close>

fun keepLabels :: "string list \<Rightarrow> string list \<Rightarrow> string list \<Rightarrow> string list" where
  "keepLabels [] removedIDs labels = labels"
| "keepLabels (l # ls) removedIDs labels =
     (if removeLabel l removedIDs then keepLabels ls removedIDs labels
      else keepLabels ls removedIDs (labels @ [l]))"

text \<open>
  \<^verbatim>\<open>updateMessage(msgLog, message, updates)\<close> mutates \<^verbatim>\<open>*message\<close>; the model returns the
  message after the call. The statements are kept in the source's order.
\<close>

definition updateMessage :: "Message \<Rightarrow> EventMessageUpdated \<Rightarrow> Message" where
  "updateMessage message updates =
    (let m0 = message\<lparr>Time := upd_Time updates\<rparr>;
         m1 = (case upd_Subject updates of None \<Rightarrow> m0 | Some s \<Rightarrow> m0\<lparr>Subject := s\<rparr>);
         m2 = (case upd_Sender updates of None \<Rightarrow> m1 | Some a \<Rightarrow> m1\<lparr>Sender := Some a\<rparr>);
         m3 = (case upd_ToList updates of None \<Rightarrow> m2 | Some l \<Rightarrow> m2\<lparr>ToList := l\<rparr>);
         m4 = (case upd_CCList updates of None \<Rightarrow> m3 | Some l \<Rightarrow> m3\<lparr>CCList := l\<rparr>);
         m5 = (case upd_BCCList updates of None \<Rightarrow> m4 | Some l \<Rightarrow> m4\<lparr>BCCList := l\<rparr>);
         m6 = (case upd_Unread updates of None \<Rightarrow> m5 | Some u \<Rightarrow> m5\<lparr>Unread := u\<rparr>);
         m7 = (case upd_Flags updates of None \<Rightarrow> m6 | Some f \<Rightarrow> m6\<lparr>Flags := f\<rparr>)
     in case upd_LabelIDs updates of
          Some ids \<Rightarrow> m7\<lparr>LabelIDs := ids\<rparr>
        | None \<Rightarrow>
            (let m8 = m7\<lparr>LabelIDs := addLabels (LabelIDsAdded updates) (LabelIDs m7)\<rparr>
             in m8\<lparr>LabelIDs := keepLabels (LabelIDs m8) (LabelIDsRemoved updates) []\<rparr>))"

subsection \<open>The merge rules in the words of the specification\<close>

text \<open>The new ids of a list of added ids: those not yet present, each once, in their order.\<close>

fun newIDs :: "string list \<Rightarrow> string list \<Rightarrow> string list" where
  "newIDs present [] = []"
| "newIDs present (a # as) =
     (if a \<in> set present then newIDs present as else a # newIDs (a # present) as)"

text \<open>Union without duplicates: the existing ids in their order, the new ids at the end.\<close>

definition unionLabels :: "string list \<Rightarrow> string list \<Rightarrow> string list" where
  "unionLabels existing added = existing @ newIDs existing added"

text \<open>Set difference that preserves the order of the remaining ids.\<close>

definition differenceLabels :: "string list \<Rightarrow> string list \<Rightarrow> string list" where
  "differenceLabels ids removedIDs = filter (\<lambda>l. l \<notin> set removedIDs) ids"

definition mergeSpec :: "Message \<Rightarrow> EventMessageUpdated \<Rightarrow> Message" where
  "mergeSpec message updates =
     \<lparr> msg_ID = msg_ID message,
       Time = upd_Time updates,
       Subject = (case upd_Subject updates of Some s \<Rightarrow> s | None \<Rightarrow> Subject message),
       Sender = (case upd_Sender updates of Some a \<Rightarrow> Some a | None \<Rightarrow> Sender message),
       ToList = (case upd_ToList updates of Some l \<Rightarrow> l | None \<Rightarrow> ToList message),
       CCList = (case upd_CCList updates of Some l \<Rightarrow> l | None \<Rightarrow> CCList message),
       BCCList = (case upd_BCCList updates of Some l \<Rightarrow> l | None \<Rightarrow> BCCList message),
       Unread = (case upd_Unread updates of Some u \<Rightarrow> u | None \<Rightarrow> Unread message),
       Flags = (case upd_Flags updates of Some f \<Rightarrow> f | None \<Rightarrow> Flags message),
       LabelIDs = (case upd_LabelIDs updates of
                     Some ids \<Rightarrow> ids
                   | None \<Rightarrow> differenceLabels
                       (unionLabels (LabelIDs message) (LabelIDsAdded updates))
                       (LabelIDsRemoved updates)) \<rparr>"

section \<open>Collaborators of the event loop\<close>

text \<open>
  The event loop talks to the remote client (\<^verbatim>\<open>apiClient\<close>), the user (\<^verbatim>\<open>user\<close>), the
  store, the cursor cache, the bridge event bus (\<^verbatim>\<open>events\<close>) and the file-descriptor
  probe. Their code is outside the source file, so every call is recorded, in order, in a
  list of calls, and what a call returns is a parameter: a field of the record \<open>env\<close>
  that maps the calls made so far (and the arguments) to the returned value. An answer may
  thus depend on everything that happened before, as the answer of a remote service or of
  a database does.
\<close>

datatype bridgeEvent =
    InternetOffEvent
  | InternetOnEvent
  | UpgradeApplicationEvent
  | RestartBridgeEvent
  | AddressChangedEvent
  | AddressChangedLogoutEvent

text \<open>
  The \<^verbatim>\<open>imapBackend.StatusUpdate\<close> that \<^verbatim>\<open>imapNotice\<close> builds: the user name and the type,
  code and info of its \<^verbatim>\<open>imap.StatusResp\<close>.
\<close>

record StatusUpdate =
  Username :: string
  StatusType :: string
  StatusCode :: string
  StatusInfo :: string

definition StatusOk :: string where
  "StatusOk = ''OK''"

definition CodeAlert :: string where
  "CodeAlert = ''ALERT''"

datatype call =
    GetEventCall string
  | SetEventIDCall string string
  | EmitCall bridgeEvent string
  | IsFdCloseToULimitCall
  | TriggerSyncCall
  | IsSyncFinishedCall
  | UpdateUserCall
  | LogoutCall
  | AddressesCall
  | GetPrimaryAddressCall
  | CloseConnectionCall string
  | CreateOrUpdateAddressInfoCall "Address list"
  | CreateOrDeleteAddressesEventCall
  | CreateOrUpdateMailboxEventCall "Label option"
  | DeleteMailboxEventCall string
  | CreateOrUpdateMessageEventCall Message
  | GetMessageFromDBCall string
  | FetchMessageCall string
  | DeleteMessageEventCall string
  | IsSyncedCall "MessagesCount list"
  | GetStoreAddressesCall
  | ImapSendTimeoutCall StatusUpdate
  | GoPollNowCall
  | EventProcessedCall
  | CloseNotifyStopChCall

record env =
  userID :: string
  GetEvent_r :: "call list \<Rightarrow> string \<Rightarrow> error + Event"
  setEventID_r :: "call list \<Rightarrow> string \<Rightarrow> string \<Rightarrow> error option"
  isFdCloseToULimit_r :: "call list \<Rightarrow> bool"
  isSyncFinished_r :: "call list \<Rightarrow> bool"
  UpdateUser_r :: "call list \<Rightarrow> error option"
  Logout_r :: "call list \<Rightarrow> error option"
  Addresses_r :: "call list \<Rightarrow> Address list"
  GetPrimaryAddress_r :: "call list \<Rightarrow> string"
  createOrUpdateAddressInfo_r :: "call list \<Rightarrow> Address list \<Rightarrow> error option"
  createOrDeleteAddressesEvent_r :: "call list \<Rightarrow> error option"
  createOrUpdateMailboxEvent_r :: "call list \<Rightarrow> Label option \<Rightarrow> error option"
  deleteMailboxEvent_r :: "call list \<Rightarrow> string \<Rightarrow> error option"
  createOrUpdateMessageEvent_r :: "call list \<Rightarrow> Message \<Rightarrow> error option"
  getMessageFromDB_r :: "call list \<Rightarrow> string \<Rightarrow> error + Message"
  fetchMessage_r :: "call list \<Rightarrow> string \<Rightarrow> error + Message"
  deleteMessageEvent_r :: "call list \<Rightarrow> string \<Rightarrow> error option"
  isSynced_r :: "call list \<Rightarrow> MessagesCount list \<Rightarrow> error + bool"
  GetStoreAddresses_r :: "call list \<Rightarrow> string list"
  imapReceiverReady_r :: "call list \<Rightarrow> StatusUpdate \<Rightarrow> bool"

text \<open>
  The world outside the loop: the calls made so far, the persisted cursors of the cache
  (user id to last event id) and the IMAP update channel of the store (\<open>None\<close> while no
  channel is registered, otherwise the updates delivered to it).
\<close>

record world =
  calls :: "call list"
  cache :: "string \<rightharpoonup> string"
  imapUpdates :: "StatusUpdate list option"

definition record_call :: "call \<Rightarrow> world \<Rightarrow> world" where
  "record_call c w = w\<lparr>calls := calls w @ [c]\<rparr>"

definition GetEvent :: "env \<Rightarrow> string \<Rightarrow> world \<Rightarrow> (error + Event) \<times> world" where
  "GetEvent env lastID w = (GetEvent_r env (calls w) lastID, record_call (GetEventCall lastID) w)"

text \<open>
  Modelled from the spec: the cursor cache (\<^verbatim>\<open>Cache.getEventID\<close>, \<^verbatim>\<open>Cache.setEventID\<close>) is
  outside the source file. The spec: \<^verbatim>\<open>getEventID(userID)\<close> returns the stored id, empty if
  unknown; \<^verbatim>\<open>setEventID(userID, id)\<close> returns an error or not, writes are durable on return,
  and an error leaves the prior value intact.
\<close>

definition getEventID :: "string \<Rightarrow> world \<Rightarrow> string" where
  "getEventID uid w = (case cache w uid of None \<Rightarrow> [] | Some eventID \<Rightarrow> eventID)"

definition setEventID :: "env \<Rightarrow> string \<Rightarrow> string \<Rightarrow> world \<Rightarrow> error option \<times> world" where
  "setEventID env uid eventID w =
     (case setEventID_r env (calls w) uid eventID of
        None \<Rightarrow> (None, record_call (SetEventIDCall uid eventID) (w\<lparr>cache := (cache w)(uid \<mapsto> eventID)\<rparr>))
      | Some e \<Rightarrow> (Some e, record_call (SetEventIDCall uid eventID) w))"

definition Emit :: "bridgeEvent \<Rightarrow> string \<Rightarrow> world \<Rightarrow> world" where
  "Emit ev data w = record_call (EmitCall ev data) w"

definition isFdCloseToULimit :: "env \<Rightarrow> world \<Rightarrow> bool \<times> world" where
  "isFdCloseToULimit env w = (isFdCloseToULimit_r env (calls w), record_call IsFdCloseToULimitCall w)"

definition triggerSync :: "world \<Rightarrow> world" where
  "triggerSync w = record_call TriggerSyncCall w"

definition isSyncFinished :: "env \<Rightarrow> world \<Rightarrow> bool \<times> world" where
  "isSyncFinished env w = (isSyncFinished_r env (calls w), record_call IsSyncFinishedCall w)"

definition UpdateUser :: "env \<Rightarrow> world \<Rightarrow> error option \<times> world" where
  "UpdateUser env w = (UpdateUser_r env (calls w), record_call UpdateUserCall w)"

definition Logout :: "env \<Rightarrow> world \<Rightarrow> error option \<times> world" where
  "Logout env w = (Logout_r env (calls w), record_call LogoutCall w)"

definition clientAddresses :: "env \<Rightarrow> world \<Rightarrow> Address list \<times> world" where
  "clientAddresses env w = (Addresses_r env (calls w), record_call AddressesCall w)"

definition GetPrimaryAddress :: "env \<Rightarrow> world \<Rightarrow> string \<times> world" where
  "GetPrimaryAddress env w = (GetPrimaryAddress_r env (calls w), record_call GetPrimaryAddressCall w)"

definition CloseConnection :: "string \<Rightarrow> world \<Rightarrow> world" where
  "CloseConnection email w = record_call (CloseConnectionCall email) w"

definition createOrUpdateAddressInfo :: "env \<Rightarrow> Address list \<Rightarrow> world \<Rightarrow> error option \<times> world" where
  "createOrUpdateAddressInfo env addrs w =
     (createOrUpdateAddressInfo_r env (calls w) addrs, record_call (CreateOrUpdateAddressInfoCall addrs) w)"

definition createOrDeleteAddressesEvent :: "env \<Rightarrow> world \<Rightarrow> error option \<times> world" where
  "createOrDeleteAddressesEvent env w =
     (createOrDeleteAddressesEvent_r env (calls w), record_call CreateOrDeleteAddressesEventCall w)"

definition createOrUpdateMailboxEvent :: "env \<Rightarrow> Label option \<Rightarrow> world \<Rightarrow> error option \<times> world" where
  "createOrUpdateMailboxEvent env label w =
     (createOrUpdateMailboxEvent_r env (calls w) label, record_call (CreateOrUpdateMailboxEventCall label) w)"

definition deleteMailboxEvent :: "env \<Rightarrow> string \<Rightarrow> world \<Rightarrow> error option \<times> world" where
  "deleteMailboxEvent env labelID w =
     (deleteMailboxEvent_r env (calls w) labelID, record_call (DeleteMailboxEventCall labelID) w)"

definition createOrUpdateMessageEvent :: "env \<Rightarrow> Message \<Rightarrow> world \<Rightarrow> error option \<times> world" where
  "createOrUpdateMessageEvent env msg w =
     (createOrUpdateMessageEvent_r env (calls w) msg, record_call (CreateOrUpdateMessageEventCall msg) w)"

definition getMessageFromDB :: "env \<Rightarrow> string \<Rightarrow> world \<Rightarrow> (error + Message) \<times> world" where
  "getMessageFromDB env apiID w =
     (getMessageFromDB_r env (calls w) apiID, record_call (GetMessageFromDBCall apiID) w)"

definition fetchMessage :: "env \<Rightarrow> string \<Rightarrow> world \<Rightarrow> (error + Message) \<times> world" where
  "fetchMessage env apiID w =
     (fetchMessage_r env (calls w) apiID, record_call (FetchMessageCall apiID) w)"

definition deleteMessageEvent :: "env \<Rightarrow> string \<Rightarrow> world \<Rightarrow> error option \<times> world" where
  "deleteMessageEvent env apiID w =
     (deleteMessageEvent_r env (calls w) apiID, record_call (DeleteMessageEventCall apiID) w)"

definition isSynced :: "env \<Rightarrow> MessagesCount list \<Rightarrow> world \<Rightarrow> (error + bool) \<times> world" where
  "isSynced env counts w = (isSynced_r env (calls w) counts, record_call (IsSyncedCall counts) w)"

definition GetStoreAddresses :: "env \<Rightarrow> world \<Rightarrow> string list \<times> world" where
  "GetStoreAddresses env w = (GetStoreAddresses_r env (calls w), record_call GetStoreAddressesCall w)"

text \<open>
  Modelled from the spec: \<^verbatim>\<open>AddressList.ByID\<close> of package \<^verbatim>\<open>pmapi\<close> is outside the source
  file; the spec: look up the old record, absent or present.
\<close>

definition ByID :: "Address list \<Rightarrow> string \<Rightarrow> Address option" where
  "ByID addrs addressID = find (\<lambda>a. addr_ID a = addressID) addrs"

section \<open>The IMAP update fan-out\<close>

text \<open>
  \<^verbatim>\<open>SetIMAPUpdateChannel\<close> stores the channel; a nil channel is stored too (and logged).
\<close>

definition SetIMAPUpdateChannel :: "StatusUpdate list option \<Rightarrow> world \<Rightarrow> world" where
  "SetIMAPUpdateChannel updates w = w\<lparr>imapUpdates := updates\<rparr>"

text \<open>
  \<^verbatim>\<open>imapSendUpdate\<close>: with no channel the update is dropped; otherwise the \<^verbatim>\<open>select\<close> either
  hands the update to the receiver or gives up after one second. Which of the two happens
  depends on the receiver: the parameter \<open>imapReceiverReady_r\<close>.
\<close>

definition imapSendUpdate :: "env \<Rightarrow> StatusUpdate \<Rightarrow> world \<Rightarrow> world" where
  "imapSendUpdate env update w =
     (case imapUpdates w of
        None \<Rightarrow> w
      | Some sent \<Rightarrow>
          (if imapReceiverReady_r env (calls w) update
           then w\<lparr>imapUpdates := Some (sent @ [update])\<rparr>
           else record_call (ImapSendTimeoutCall update) w))"

definition imapNotice :: "env \<Rightarrow> string \<Rightarrow> string \<Rightarrow> world \<Rightarrow> world" where
  "imapNotice env address notice w =
     imapSendUpdate env
       \<lparr> Username = address, StatusType = StatusOk, StatusCode = CodeAlert, StatusInfo = notice \<rparr> w"

section \<open>The event loop\<close>

text \<open>
  The fields of \<^verbatim>\<open>eventLoop\<close> that the loop itself reads and writes. The channels belong to
  the scheduling of the goroutines; what the loop does with them is recorded as calls.
\<close>

record eventLoop =
  currentEventID :: string
  isRunning :: bool
  hasInternet :: bool

definition newEventLoop :: "env \<Rightarrow> world \<Rightarrow> eventLoop" where
  "newEventLoop env w =
     \<lparr> currentEventID = getEventID (userID env) w, isRunning = False, hasInternet = False \<rparr>"

definition IsRunning :: "eventLoop \<Rightarrow> bool" where
  "IsRunning loop = isRunning loop"

definition isBeforeFirstStart :: "eventLoop \<Rightarrow> bool" where
  "isBeforeFirstStart loop = (currentEventID loop = [])"

definition setFirstEventID :: "env \<Rightarrow> eventLoop \<Rightarrow> world \<Rightarrow> error option \<times> eventLoop \<times> world" where
  "setFirstEventID env loop w =
     (case GetEvent env [] w of
        (Inl e, w1) \<Rightarrow> (Some e, loop, w1)
      | (Inr event, w1) \<Rightarrow>
          (let loop1 = loop\<lparr>currentEventID := EventID event\<rparr>
           in case setEventID env (userID env) (currentEventID loop1) w1 of
                (err, w2) \<Rightarrow> (err, loop1, w2)))"

subsection \<open>The delta appliers\<close>

text \<open>
  The body of the loop of \<^verbatim>\<open>processAddresses\<close>, one delta at a time. The result is \<open>True\<close>
  when the loop panicked: \<^verbatim>\<open>addressEvent.Address.Email\<close> (create) and
  \<^verbatim>\<open>addressEvent.Address.Receive\<close> (update) dereference a pointer that may be nil.
\<close>

fun processAddresses_loop :: "env \<Rightarrow> Address list \<Rightarrow> EventAddress list \<Rightarrow> world \<Rightarrow> bool \<times> world" where
  "processAddresses_loop env oldList [] w = (False, w)"
| "processAddresses_loop env oldList (addressEvent # rest) w =
     (case ea_Action addressEvent of
        EventCreate \<Rightarrow>
          (case ea_Address addressEvent of
             None \<Rightarrow> (True, w)
           | Some address \<Rightarrow>
               (case GetPrimaryAddress env w of
                  (primary, w1) \<Rightarrow>
                    processAddresses_loop env oldList rest (Emit AddressChangedEvent primary w1)))
      | EventUpdate \<Rightarrow>
          (case ByID oldList (ea_ID addressEvent) of
             None \<Rightarrow> processAddresses_loop env oldList rest w
           | Some oldAddress \<Rightarrow>
               (case ea_Address addressEvent of
                  None \<Rightarrow> (True, w)
                | Some address \<Rightarrow>
                    (if Receive address \<noteq> Receive oldAddress
                     then processAddresses_loop env oldList rest
                            (Emit AddressChangedLogoutEvent (Email oldAddress) w)
                     else processAddresses_loop env oldList rest w)))
      | EventDelete \<Rightarrow>
          (case ByID oldList (ea_ID addressEvent) of
             None \<Rightarrow> processAddresses_loop env oldList rest w
           | Some oldAddress \<Rightarrow>
               processAddresses_loop env oldList rest
                 (Emit AddressChangedLogoutEvent (Email oldAddress)
                    (CloseConnection (Email oldAddress) w)))
      | _ \<Rightarrow> processAddresses_loop env oldList rest w)"

definition processAddresses :: "env \<Rightarrow> EventAddress list \<Rightarrow> world \<Rightarrow> result \<times> world" where
  "processAddresses env addressEvents w =
     (case clientAddresses env w of
        (oldList, w1) \<Rightarrow>
     (case UpdateUser env w1 of
        (Some e, w2) \<Rightarrow>
          (case Logout env w2 of
             (logoutErr, w3) \<Rightarrow> (Err (Wrap e ''failed to update user''), w3))
      | (None, w2) \<Rightarrow>
     (case processAddresses_loop env oldList addressEvents w2 of
        (True, w3) \<Rightarrow> (Panic, w3)
      | (False, w3) \<Rightarrow>
     (case clientAddresses env w3 of
        (newList, w4) \<Rightarrow>
     (case createOrUpdateAddressInfo env newList w4 of
        (Some e, w5) \<Rightarrow> (Err (Wrap e ''failed to update address IDs in store''), w5)
      | (None, w5) \<Rightarrow>
     (case createOrDeleteAddressesEvent env w5 of
        (Some e, w6) \<Rightarrow> (Err (Wrap e ''failed to create/delete store addresses''), w6)
      | (None, w6) \<Rightarrow> (Ok, w6)))))))"

fun processLabels :: "env \<Rightarrow> EventLabel list \<Rightarrow> world \<Rightarrow> error option \<times> world" where
  "processLabels env [] w = (None, w)"
| "processLabels env (eventLabel # rest) w =
     (if el_Action eventLabel = EventCreate \<or> el_Action eventLabel = EventUpdate then
        (case createOrUpdateMailboxEvent env (el_Label eventLabel) w of
           (Some e, w1) \<Rightarrow> (Some (Wrap e ''failed to create or update label''), w1)
         | (None, w1) \<Rightarrow> processLabels env rest w1)
      else if el_Action eventLabel = EventDelete then
        (case deleteMailboxEvent env (el_ID eventLabel) w of
           (Some e, w1) \<Rightarrow> (Some (Wrap e ''failed to delete label''), w1)
         | (None, w1) \<Rightarrow> processLabels env rest w1)
      else processLabels env rest w)"

text \<open>
  How one pass through the body of the loop of \<^verbatim>\<open>processMessages\<close> ends: the loop goes on
  with the next delta (\<^verbatim>\<open>break\<close> out of the \<^verbatim>\<open>switch\<close>, \<^verbatim>\<open>continue\<close>, or the end of the
  body), or the function returns.
\<close>

datatype control = GoOn | Returned

text \<open>
  The body of the loop of \<^verbatim>\<open>processMessages\<close>. \<^verbatim>\<open>err\<close> is the named result of the function:
  the body assigns it with every store call, and the argument \<open>err\<close> is its value when the
  body is entered. The result carries its value when the body is left.
\<close>

definition processMessage :: "env \<Rightarrow> EventMessage \<Rightarrow> error option \<Rightarrow> world \<Rightarrow> control \<times> error option \<times> world" where
  "processMessage env message err w =
     (if em_Action message = EventCreate then
        (case Created message of
           None \<Rightarrow> (GoOn, err, w)
         | Some created \<Rightarrow>
             (case createOrUpdateMessageEvent env created w of
                (Some e, w1) \<Rightarrow> (Returned, Some (Wrap e ''failed to put message into DB''), w1)
              | (None, w1) \<Rightarrow> (GoOn, None, w1)))
      else if em_Action message = EventUpdate \<or> em_Action message = EventUpdateFlags then
        (case Updated message of
           None \<Rightarrow> (GoOn, err, w)
         | Some updates \<Rightarrow>
             (case getMessageFromDB env (em_ID message) w of
                (r1, w1) \<Rightarrow>
             (case (if r1 = Inl ErrNoSuchAPIID then fetchMessage env (em_ID message) w1 else (r1, w1)) of
                (r2, w2) \<Rightarrow>
                  (if r1 = Inl ErrNoSuchAPIID \<and> r2 = Inl ErrNoSuchAPIID then (GoOn, Some ErrNoSuchAPIID, w2)
                   else
                     (case r2 of
                        Inl e \<Rightarrow> (Returned, Some (Wrap e ''failed to get message from DB for updating''), w2)
                      | Inr msg \<Rightarrow>
                          (case createOrUpdateMessageEvent env (updateMessage msg updates) w2 of
                             (Some e, w3) \<Rightarrow> (Returned, Some (Wrap e ''failed to update message in DB''), w3)
                           | (None, w3) \<Rightarrow> (GoOn, None, w3)))))))
      else if em_Action message = EventDelete then
        (case deleteMessageEvent env (em_ID message) w of
           (Some e, w1) \<Rightarrow> (Returned, Some (Wrap e ''failed to delete message from DB''), w1)
         | (None, w1) \<Rightarrow> (GoOn, None, w1))
      else (GoOn, err, w))"

fun processMessages_loop :: "env \<Rightarrow> EventMessage list \<Rightarrow> error option \<Rightarrow> world \<Rightarrow> error option \<times> world" where
  "processMessages_loop env [] err w = (err, w)"
| "processMessages_loop env (message # rest) err w =
     (case processMessage env message err w of
        (Returned, err1, w1) \<Rightarrow> (err1, w1)
      | (GoOn, err1, w1) \<Rightarrow> processMessages_loop env rest err1 w1)"

text \<open>\<^verbatim>\<open>processMessages\<close>: the named result \<^verbatim>\<open>err\<close> starts as nil and is returned after the loop.\<close>

definition processMessages :: "env \<Rightarrow> EventMessage list \<Rightarrow> world \<Rightarrow> error option \<times> world" where
  "processMessages env messages w = processMessages_loop env messages None w"

definition processMessageCounts :: "env \<Rightarrow> MessagesCount list \<Rightarrow> world \<Rightarrow> error option \<times> world" where
  "processMessageCounts env messageCounts w =
     (case isSynced env messageCounts w of
        (Inl e, w1) \<Rightarrow> (Some e, w1)
      | (Inr synced, w1) \<Rightarrow> (None, if \<not> synced then triggerSync w1 else w1))"

fun processNotices_addresses :: "env \<Rightarrow> string list \<Rightarrow> string \<Rightarrow> world \<Rightarrow> world" where
  "processNotices_addresses env [] notice w = w"
| "processNotices_addresses env (address # rest) notice w =
     processNotices_addresses env rest notice (imapNotice env address notice w)"

fun processNotices :: "env \<Rightarrow> string list \<Rightarrow> world \<Rightarrow> world" where
  "processNotices env [] w = w"
| "processNotices env (notice # rest) w =
     (case GetStoreAddresses env w of
        (addresses, w1) \<Rightarrow> processNotices env rest (processNotices_addresses env addresses notice w1))"

subsection \<open>\<^verbatim>\<open>processEvent\<close>\<close>

definition processEvent :: "env \<Rightarrow> Event \<Rightarrow> world \<Rightarrow> result \<times> world" where
  "processEvent env event w =
     (if (Refresh event AND EventRefreshMail) \<noteq> 0 then (Ok, triggerSync w)
      else
     (case (if Addresses event \<noteq> [] then processAddresses env (Addresses event) w else (Ok, w)) of
        (Err e, w1) \<Rightarrow> (Err (Wrap e ''failed to process address events''), w1)
      | (Panic, w1) \<Rightarrow> (Panic, w1)
      | (Ok, w1) \<Rightarrow>
     (case (if Labels event \<noteq> [] then processLabels env (Labels event) w1 else (None, w1)) of
        (Some e, w2) \<Rightarrow> (Err (Wrap e ''failed to process label events''), w2)
      | (None, w2) \<Rightarrow>
     (case (if Messages event \<noteq> [] then processMessages env (Messages event) w2 else (None, w2)) of
        (Some e, w3) \<Rightarrow> (Err (Wrap e ''failed to process message events''), w3)
      | (None, w3) \<Rightarrow>
     (case (if MessageCounts event \<noteq> [] then processMessageCounts env (MessageCounts event) w3
            else (None, w3)) of
        (Some e, w4) \<Rightarrow> (Err (Wrap e ''failed to process message count events''), w4)
      | (None, w4) \<Rightarrow>
          (Ok, if Notices event \<noteq> [] then processNotices env (Notices event) w4 else w4))))))"

subsection \<open>\<^verbatim>\<open>processNextEvent\<close>\<close>

text \<open>
  The body of \<^verbatim>\<open>processNextEvent\<close> up to its \<^verbatim>\<open>return\<close> statements: the results
  \<^verbatim>\<open>(more, err)\<close> as the body leaves them, before the deferred function runs.
\<close>

definition processNextEvent_body :: "env \<Rightarrow> eventLoop \<Rightarrow> world \<Rightarrow> bool \<times> result \<times> eventLoop \<times> world" where
  "processNextEvent_body env loop w =
     (case GetEvent env (currentEventID loop) w of
        (Inl e, w1) \<Rightarrow> (False, Err (Wrap e ''failed to get event''), loop, w1)
      | (Inr event, w1) \<Rightarrow>
     (case (if \<not> hasInternet loop
            then (loop\<lparr>hasInternet := True\<rparr>, Emit InternetOnEvent [] w1)
            else (loop, w1)) of
        (loop1, w2) \<Rightarrow>
     (case processEvent env event w2 of
        (Panic, w3) \<Rightarrow> (False, Panic, loop1, w3)
      | (Err e, w3) \<Rightarrow> (False, Err (Wrap e ''failed to process event''), loop1, w3)
      | (Ok, w3) \<Rightarrow>
          (if currentEventID loop1 \<noteq> EventID event then
             (let loop2 = loop1\<lparr>currentEventID := EventID event\<rparr>
              in case setEventID env (userID env) (EventID event) w3 of
                   (Some e, w4) \<Rightarrow> (False, Err (Wrap e ''failed to save event ID to cache''), loop2, w4)
                 | (None, w4) \<Rightarrow> (More event = 1, Ok, loop2, w4))
           else (More event = 1, Ok, loop1, w3)))))"

text \<open>
  The deferred function of \<^verbatim>\<open>processNextEvent\<close>: four checks, in the source's order, each
  reading the \<^verbatim>\<open>err\<close> that the checks before it left.
\<close>

definition processNextEvent_deferred :: "env \<Rightarrow> error option \<Rightarrow> eventLoop \<Rightarrow> world \<Rightarrow> error option \<times> eventLoop \<times> world" where
  "processNextEvent_deferred env err loop w =
     (case (if CauseOpt err = Some ErrAPINotReachable
            then (None, loop\<lparr>hasInternet := False\<rparr>, Emit InternetOffEvent [] w)
            else (err, loop, w)) of
        (err1, loop1, w1) \<Rightarrow>
     (case (if err1 \<noteq> None
            then (case isFdCloseToULimit env w1 of
                    (True, wp) \<Rightarrow> (None, Emit RestartBridgeEvent [] wp)
                  | (False, wp) \<Rightarrow> (err1, wp))
            else (err1, w1)) of
        (err2, w2) \<Rightarrow>
     (case (if CauseOpt err2 = Some ErrUpgradeApplication
            then (None, Emit UpgradeApplicationEvent [] w2)
            else (err2, w2)) of
        (err3, w3) \<Rightarrow>
          (let errUnauthorized = isErrUnauthorized (CauseOpt err3)
           in if err3 \<noteq> None \<and> \<not> errUnauthorized \<and> CauseOpt err3 \<noteq> Some ErrInvalidToken
              then (None, loop1, w3)
              else (err3, loop1, w3)))))"

text \<open>
  \<^verbatim>\<open>processNextEvent\<close>: the body, then the deferred function on the \<^verbatim>\<open>err\<close> the body left.
  When the body panics, \<^verbatim>\<open>err\<close> is still the nil that \<^verbatim>\<open>GetEvent\<close> returned, the deferred
  function finds nothing to do, and the panic goes on to the caller.
\<close>

definition processNextEvent :: "env \<Rightarrow> eventLoop \<Rightarrow> world \<Rightarrow> bool \<times> result \<times> eventLoop \<times> world" where
  "processNextEvent env loop w =
     (case processNextEvent_body env loop w of
        (more1, Panic, loop1, w1) \<Rightarrow>
          (case processNextEvent_deferred env None loop1 w1 of
             (err, loop2, w2) \<Rightarrow> (more1, Panic, loop2, w2))
      | (more1, Ok, loop1, w1) \<Rightarrow>
          (case processNextEvent_deferred env None loop1 w1 of
             (None, loop2, w2) \<Rightarrow> (more1, Ok, loop2, w2)
           | (Some e, loop2, w2) \<Rightarrow> (more1, Err e, loop2, w2))
      | (more1, Err e0, loop1, w1) \<Rightarrow>
          (case processNextEvent_deferred env (Some e0) loop1 w1 of
             (None, loop2, w2) \<Rightarrow> (more1, Ok, loop2, w2)
           | (Some e, loop2, w2) \<Rightarrow> (more1, Err e, loop2, w2)))"

subsection \<open>\<^verbatim>\<open>start\<close>\<close>

text \<open>
  What the \<^verbatim>\<open>select\<close> at the top of the loop of \<^verbatim>\<open>start\<close> received: the stop signal, a
  \<^verbatim>\<open>pollNow\<close> request (with its completion channel), or a tick of the 30 second ticker.
\<close>

datatype trigger = StopCh | PollCh | TickerC

text \<open>
  Where the loop is after a pass: back at the \<^verbatim>\<open>select\<close>, returned from \<^verbatim>\<open>start\<close>, or
  taken down by a panic.
\<close>

datatype status = Running | Stopped | Crashed

text \<open>
  The first half of the body of the \<^verbatim>\<open>for\<close> loop of \<^verbatim>\<open>start\<close>, between the \<^verbatim>\<open>select\<close>
  and the call of \<^verbatim>\<open>processNextEvent\<close>: the first event id is set when there is none yet
  (a failure is logged only), and a sync is triggered when the sync is not finished.
\<close>

definition start_before :: "env \<Rightarrow> eventLoop \<Rightarrow> world \<Rightarrow> eventLoop \<times> world" where
  "start_before env loop w =
     (case (if isBeforeFirstStart loop
            then (case setFirstEventID env loop w of (eventErr, loop0, w0) \<Rightarrow> (loop0, w0))
            else (loop, w)) of
        (loop1, w1) \<Rightarrow>
     (case isSyncFinished env w1 of
        (finished, w2) \<Rightarrow> (loop1, if \<not> finished then triggerSync w2 else w2)))"

text \<open>
  The second half, on the results of \<^verbatim>\<open>processNextEvent\<close>: the completion signal of a
  \<^verbatim>\<open>pollNow\<close> request is sent, an error logs the user out and ends \<^verbatim>\<open>start\<close>, and
  \<^verbatim>\<open>more\<close> spawns another \<^verbatim>\<open>pollNow\<close>. \<^verbatim>\<open>go loop.pollNow()\<close> and the send on
  \<^verbatim>\<open>eventProcessedCh\<close> are recorded as calls. A panic takes the goroutine down before any
  of this.
\<close>

definition start_after :: "env \<Rightarrow> trigger \<Rightarrow> bool \<times> result \<times> eventLoop \<times> world \<Rightarrow> status \<times> eventLoop \<times> world" where
  "start_after env trig r =
     (case r of
        (more1, Panic, loop2, w3) \<Rightarrow> (Crashed, loop2, w3)
      | (more1, Err e, loop2, w3) \<Rightarrow>
          (case Logout env (if trig = PollCh then record_call EventProcessedCall w3 else w3) of
             (errLogout, w4) \<Rightarrow> (Stopped, loop2, w4))
      | (more1, Ok, loop2, w3) \<Rightarrow>
          (let w4 = (if trig = PollCh then record_call EventProcessedCall w3 else w3)
           in (Running, loop2, if more1 then record_call GoPollNowCall w4 else w4)))"

text \<open>
  One pass through the body of the \<^verbatim>\<open>for\<close> loop of \<^verbatim>\<open>start\<close>: the stop signal closes
  \<^verbatim>\<open>notifyStopCh\<close> and returns; a request or a tick runs the two halves around
  \<^verbatim>\<open>processNextEvent\<close>.
\<close>

definition iteration :: "env \<Rightarrow> trigger \<Rightarrow> eventLoop \<Rightarrow> world \<Rightarrow> status \<times> eventLoop \<times> world" where
  "iteration env trig loop w =
     (if trig = StopCh then (Stopped, loop, record_call CloseNotifyStopChCall w)
      else
        (case start_before env loop w of
           (loop1, w1) \<Rightarrow> start_after env trig (processNextEvent env loop1 w1)))"

text \<open>
  The \<^verbatim>\<open>for\<close> loop of \<^verbatim>\<open>start\<close>, driven by what the \<^verbatim>\<open>select\<close> receives, pass after pass.
  When the list is used up the loop is waiting at the \<^verbatim>\<open>select\<close>.
\<close>

fun run :: "env \<Rightarrow> trigger list \<Rightarrow> eventLoop \<Rightarrow> world \<Rightarrow> status \<times> eventLoop \<times> world" where
  "run env [] loop w = (Running, loop, w)"
| "run env (trig # rest) loop w =
     (case iteration env trig loop w of
        (Running, loop1, w1) \<Rightarrow> run env rest loop1 w1
      | (Stopped, loop1, w1) \<Rightarrow> (Stopped, loop1, w1)
      | (Crashed, loop1, w1) \<Rightarrow> (Crashed, loop1, w1))"

text \<open>
  \<^verbatim>\<open>start\<close>: nothing happens when the loop is running already; otherwise the flags are set,
  the first \<^verbatim>\<open>pollNow\<close> is spawned and the loop runs. The deferred function clears
  \<^verbatim>\<open>isRunning\<close> when \<^verbatim>\<open>start\<close> is left.
\<close>

definition start :: "env \<Rightarrow> trigger list \<Rightarrow> eventLoop \<Rightarrow> world \<Rightarrow> status \<times> eventLoop \<times> world" where
  "start env triggers loop w =
     (if isRunning loop then (Stopped, loop, w)
      else
        (case run env triggers (loop\<lparr>isRunning := True, hasInternet := True\<rparr>)
                (record_call GoPollNowCall w) of
           (Running, loop1, w1) \<Rightarrow> (Running, loop1, w1)
         | (st, loop1, w1) \<Rightarrow> (st, loop1\<lparr>isRunning := False\<rparr>, w1)))"

section \<open>A concrete environment\<close>

text \<open>
  Collaborators that always succeed: the remote has no event to give (not reachable), the
  store knows no message, every write goes through, file descriptors are plentiful and
  the sync is finished. The scenarios below change single answers of it.
\<close>

definition quietEnv :: env where
  "quietEnv =
     \<lparr> userID = ''user'',
       GetEvent_r = (\<lambda>cs lastID. Inl ErrAPINotReachable),
       setEventID_r = (\<lambda>cs uid eventID. None),
       isFdCloseToULimit_r = (\<lambda>cs. False),
       isSyncFinished_r = (\<lambda>cs. True),
       UpdateUser_r = (\<lambda>cs. None),
       Logout_r = (\<lambda>cs. None),
       Addresses_r = (\<lambda>cs. []),
       GetPrimaryAddress_r = (\<lambda>cs. ''user@pm.me''),
       createOrUpdateAddressInfo_r = (\<lambda>cs addrs. None),
       createOrDeleteAddressesEvent_r = (\<lambda>cs. None),
       createOrUpdateMailboxEvent_r = (\<lambda>cs label. None),
       deleteMailboxEvent_r = (\<lambda>cs labelID. None),
       createOrUpdateMessageEvent_r = (\<lambda>cs msg. None),
       getMessageFromDB_r = (\<lambda>cs apiID. Inl ErrNoSuchAPIID),
       fetchMessage_r = (\<lambda>cs apiID. Inl ErrNoSuchAPIID),
       deleteMessageEvent_r = (\<lambda>cs apiID. None),
       isSynced_r = (\<lambda>cs counts. Inr True),
       GetStoreAddresses_r = (\<lambda>cs. [''user@pm.me'']),
       imapReceiverReady_r = (\<lambda>cs update. True) \<rparr>"

definition emptyWorld :: world where
  "emptyWorld = \<lparr> calls = [], cache = Map.empty, imapUpdates = None \<rparr>"

definition emptyEvent :: "string \<Rightarrow> Event" where
  "emptyEvent eventID =
     \<lparr> EventID = eventID, Refresh = 0, Messages = [], MessageCounts = [], Labels = [],
       Addresses = [], Notices = [], More = 0 \<rparr>"

definition emptyPatch :: "string \<Rightarrow> EventMessageUpdated" where
  "emptyPatch apiID =
     \<lparr> upd_ID = apiID, upd_Time = 0, upd_Subject = None, upd_Sender = None, upd_ToList = None,
       upd_CCList = None, upd_BCCList = None, upd_Unread = None, upd_Flags = None,
       upd_LabelIDs = None, LabelIDsAdded = [], LabelIDsRemoved = [] \<rparr>"

section \<open>Vocabulary of the statements\<close>

text \<open>
  The two error kinds that the last check of the deferred function lets through: an
  error whose cause is \<^verbatim>\<open>pmapi.ErrInvalidToken\<close> or has the type \<^verbatim>\<open>*pmapi.ErrUnauthorized\<close>.
\<close>

definition fatalKind :: "error \<Rightarrow> bool" where
  "fatalKind e = (isErrUnauthorized (Some (Cause e)) \<or> Cause e = ErrInvalidToken)"

text \<open>
  The world right after a successful fetch in \<^verbatim>\<open>processNextEvent\<close>: the call of
  \<^verbatim>\<open>GetEvent\<close>, and the \<^verbatim>\<open>InternetOn\<close> emission when the loop was offline.
\<close>

definition afterFetch :: "eventLoop \<Rightarrow> world \<Rightarrow> world" where
  "afterFetch loop w =
     (if \<not> hasInternet loop
      then Emit InternetOnEvent [] (record_call (GetEventCall (currentEventID loop)) w)
      else record_call (GetEventCall (currentEventID loop)) w)"

text \<open>The completion signal that \<^verbatim>\<open>start\<close> sends to a \<^verbatim>\<open>pollNow\<close> request, and to no one else.\<close>

definition signalProcessed :: "trigger \<Rightarrow> world \<Rightarrow> world" where
  "signalProcessed trig w = (if trig = PollCh then record_call EventProcessedCall w else w)"

section \<open>Scenarios\<close>

text \<open>A running, online loop whose cursor is at the given event id.\<close>

definition loopAt :: "string \<Rightarrow> eventLoop" where
  "loopAt eventID = \<lparr> currentEventID = eventID, isRunning = True, hasInternet = True \<rparr>"

text \<open>File-descriptor usage near the ulimit, the remote not reachable.\<close>

definition fdEnv :: env where
  "fdEnv = quietEnv\<lparr>isFdCloseToULimit_r := (\<lambda>cs. True)\<rparr>"

text \<open>File-descriptor usage near the ulimit, the remote failing with a generic error.\<close>

definition brokenFdEnv :: env where
  "brokenFdEnv = fdEnv\<lparr>GetEvent_r := (\<lambda>cs lastID. Inl (ErrOther ''too many open files''))\<rparr>"

text \<open>A create delta without a message, and a delete delta.\<close>

definition nilCreate :: EventMessage where
  "nilCreate = \<lparr> em_ID = ''m1'', em_Action = EventCreate, Created = None, Updated = None \<rparr>"

definition deleteM2 :: EventMessage where
  "deleteM2 = \<lparr> em_ID = ''m2'', em_Action = EventDelete, Created = None, Updated = None \<rparr>"

text \<open>The remote hands out event \<open>e2\<close>, without deltas and with \<^verbatim>\<open>More = 1\<close>.\<close>

definition moreEnv :: env where
  "moreEnv = quietEnv\<lparr>GetEvent_r := (\<lambda>cs lastID. Inr ((emptyEvent ''e2'')\<lparr>More := 1\<rparr>))\<rparr>"

text \<open>The same, with a cache whose writes fail.\<close>

definition moreWriteFailsEnv :: env where
  "moreWriteFailsEnv = moreEnv\<lparr>setEventID_r := (\<lambda>cs uid eventID. Some (ErrOther ''disk full''))\<rparr>"


text \<open>The remote rejects the token; and the same with file-descriptor usage near the ulimit.\<close>

definition invalidTokenEnv :: env where
  "invalidTokenEnv = quietEnv\<lparr>GetEvent_r := (\<lambda>cs lastID. Inl ErrInvalidToken)\<rparr>"

definition invalidTokenFdEnv :: env where
  "invalidTokenFdEnv = invalidTokenEnv\<lparr>isFdCloseToULimit_r := (\<lambda>cs. True)\<rparr>"

text \<open>
  A refresh event \<open>e5\<close> (the \<^verbatim>\<open>MAIL\<close> bit set) that also carries a message delta; a remote
  that hands it out; and the same with a cache whose writes fail.
\<close>

definition refreshEvent :: Event where
  "refreshEvent = (emptyEvent ''e5'')\<lparr>Refresh := 1, Messages := [deleteM2]\<rparr>"

definition refreshEnv :: env where
  "refreshEnv = quietEnv\<lparr>GetEvent_r := (\<lambda>cs lastID. Inr refreshEvent)\<rparr>"

definition refreshWriteFailsEnv :: env where
  "refreshWriteFailsEnv = refreshEnv\<lparr>setEventID_r := (\<lambda>cs uid eventID. Some (ErrOther ''disk full''))\<rparr>"

text \<open>A world without calls in which the cache holds the given event id for the user.\<close>

definition worldAt :: "string \<Rightarrow> world" where
  "worldAt eventID = emptyWorld\<lparr>cache := [''user'' \<mapsto> eventID]\<rparr>"

text \<open>
  Scenario S3 of the spec: event \<open>e3\<close> carries one update for a message \<open>mX\<close> that neither
  the store nor the remote knows (the quiet environment answers \<^verbatim>\<open>ErrNoSuchAPIID\<close> to both
  lookups).
\<close>

definition staleUpdate :: EventMessage where
  "staleUpdate =
     \<lparr> em_ID = ''mX'', em_Action = EventUpdate, Created = None, Updated = Some (emptyPatch ''mX'') \<rparr>"

definition staleEnv :: env where
  "staleEnv =
     quietEnv\<lparr>GetEvent_r := (\<lambda>cs lastID. Inr ((emptyEvent ''e3'')\<lparr>Messages := [staleUpdate]\<rparr>))\<rparr>"

section \<open>Applied events\<close>

text \<open>
  The ids of the events that a step of the loop applies, in order, read off the same
  calls that the step makes. \<^verbatim>\<open>setFirstEventID\<close> adopts the head event that
  \<^verbatim>\<open>GetEvent("")\<close> returns; \<^verbatim>\<open>processNextEvent\<close> applies the fetched event when
  \<^verbatim>\<open>processEvent\<close> returns nil for it; a pass of the loop does the first when the cursor is
  empty and then the second; a run does pass after pass while the loop is running.
\<close>

definition headAdopted :: "env \<Rightarrow> world \<Rightarrow> string list" where
  "headAdopted env w =
     (case GetEvent env [] w of
        (Inl e, w1) \<Rightarrow> []
      | (Inr event, w1) \<Rightarrow> [EventID event])"

definition eventApplied :: "env \<Rightarrow> eventLoop \<Rightarrow> world \<Rightarrow> string list" where
  "eventApplied env loop w =
     (case GetEvent env (currentEventID loop) w of
        (Inl e, w1) \<Rightarrow> []
      | (Inr event, w1) \<Rightarrow>
          (case processEvent env event (afterFetch loop w) of
             (Ok, w3) \<Rightarrow> [EventID event]
           | (Err e, w3) \<Rightarrow> []
           | (Panic, w3) \<Rightarrow> []))"

definition iterationApplied :: "env \<Rightarrow> trigger \<Rightarrow> eventLoop \<Rightarrow> world \<Rightarrow> string list" where
  "iterationApplied env trig loop w =
     (if trig = StopCh then []
      else (if isBeforeFirstStart loop then headAdopted env w else [])
           @ (case start_before env loop w of (loop1, w1) \<Rightarrow> eventApplied env loop1 w1))"

fun runApplied :: "env \<Rightarrow> trigger list \<Rightarrow> eventLoop \<Rightarrow> world \<Rightarrow> string list" where
  "runApplied env [] loop w = []"
| "runApplied env (trig # rest) loop w =
     iterationApplied env trig loop w
     @ (case iteration env trig loop w of
          (Running, loop1, w1) \<Rightarrow> runApplied env rest loop1 w1
        | (Stopped, loop1, w1) \<Rightarrow> []
        | (Crashed, loop1, w1) \<Rightarrow> [])"

text \<open>
  Scenario S1 of the spec, continued: the head of the remote's log is \<open>e0\<close>, the event
  after it is \<open>e1\<close> with one delete delta, and after \<open>e1\<close> the remote is not reachable.
\<close>

definition coldEnv :: env where
  "coldEnv =
     quietEnv\<lparr>GetEvent_r :=
       (\<lambda>cs lastID.
          if lastID = [] then Inr (emptyEvent ''e0'')
          else if lastID = ''e0'' then Inr ((emptyEvent ''e1'')\<lparr>Messages := [deleteM2]\<rparr>)
          else Inl ErrAPINotReachable)\<rparr>"

section \<open>Properties of the patch merge\<close>

lemma hasLabel_iff: "hasLabel a ls \<longleftrightarrow> a \<in> set ls"
  by (induction ls) auto

lemma removeLabel_iff: "removeLabel l rs \<longleftrightarrow> l \<in> set rs"
  by (induction rs) auto

lemma newIDs_snoc_present:
  "set p = set q \<Longrightarrow> newIDs p as = newIDs q as"
proof (induction as arbitrary: p q)
  case Nil
  show ?case by simp
next
  case (Cons a as)
  have "newIDs (a # p) as = newIDs (a # q) as"
    by (rule Cons.IH) (simp add: Cons.prems)
  moreover have "newIDs p as = newIDs q as"
    by (rule Cons.IH) (rule Cons.prems)
  ultimately show ?case using Cons.prems by simp
qed

lemma addLabels_union: "addLabels added ids = unionLabels ids added"
proof (induction added arbitrary: ids)
  case Nil
  show ?case by (simp add: unionLabels_def)
next
  case (Cons a as)
  show ?case
  proof (cases "a \<in> set ids")
    case True
    then show ?thesis using Cons.IH [of ids] by (simp add: hasLabel_iff unionLabels_def)
  next
    case False
    have "newIDs (ids @ [a]) as = newIDs (a # ids) as"
      by (rule newIDs_snoc_present) auto
    then show ?thesis using False Cons.IH [of "ids @ [a]"]
      by (simp add: hasLabel_iff unionLabels_def)
  qed
qed

lemma keepLabels_difference:
  "keepLabels ids removedIDs labels = labels @ differenceLabels ids removedIDs"
  by (induction ids arbitrary: labels) (simp_all add: differenceLabels_def removeLabel_iff)

lemma set_newIDs: "set (newIDs present as) = set as - set present"
  by (induction as arbitrary: present) auto

lemma distinct_newIDs: "distinct (newIDs present as)"
  by (induction as arbitrary: present) (auto simp: set_newIDs)

lemma updateMessage_mergeSpec: "updateMessage message updates = mergeSpec message updates"
  by (cases message)
    (simp add: updateMessage_def mergeSpec_def Let_def addLabels_union keepLabels_difference
      split: option.splits)

lemma subseq_newIDs: "subseq (newIDs present as) as"
  by (induction as arbitrary: present) auto

lemma difference_union_twice:
  "differenceLabels (unionLabels (differenceLabels (unionLabels ids added) removedIDs) added)
     removedIDs
   = differenceLabels (unionLabels ids added) removedIDs"
proof -
  define once where "once = differenceLabels (unionLabels ids added) removedIDs"
  have set_once: "set once = (set ids \<union> set added) - set removedIDs"
    by (auto simp: once_def differenceLabels_def unionLabels_def set_newIDs)
  have "set (newIDs once added) \<subseteq> set removedIDs"
    by (auto simp: set_newIDs set_once)
  then have gone: "filter (\<lambda>l. l \<notin> set removedIDs) (newIDs once added) = []"
    by (auto simp: filter_empty_conv)
  have kept: "filter (\<lambda>l. l \<notin> set removedIDs) once = once"
    by (simp add: once_def differenceLabels_def)
  have "differenceLabels (unionLabels once added) removedIDs = once"
    by (simp add: differenceLabels_def unionLabels_def gone kept)
  then show ?thesis by (simp add: once_def)
qed

lemma LabelIDs_updateMessage:
  "LabelIDs (updateMessage message updates) =
     (case upd_LabelIDs updates of
        Some ids \<Rightarrow> ids
      | None \<Rightarrow> differenceLabels (unionLabels (LabelIDs message) (LabelIDsAdded updates))
                  (LabelIDsRemoved updates))"
  by (simp add: updateMessage_mergeSpec mergeSpec_def)

text \<open>
  Claim C3. For every message and every sparse patch, \<^verbatim>\<open>updateMessage\<close> sets \<^verbatim>\<open>Time\<close> from
  the patch unconditionally; sets each of \<^verbatim>\<open>Subject\<close>, \<^verbatim>\<open>Sender\<close>, \<^verbatim>\<open>ToList\<close>, \<^verbatim>\<open>CCList\<close>,
  \<^verbatim>\<open>BCCList\<close>, \<^verbatim>\<open>Unread\<close>, \<^verbatim>\<open>Flags\<close> only when the patch carries it; and for the labels, a
  present \<^verbatim>\<open>LabelIDs\<close> replaces the whole list, otherwise \<^verbatim>\<open>LabelIDsAdded\<close> is unioned in
  (the existing ids keep their order, the ids not yet present are appended at the end, each
  once and in the order of the patch) and then the ids of \<^verbatim>\<open>LabelIDsRemoved\<close> are filtered
  out, the remaining ids keeping their order.
\<close>

theorem updateMessage_merge_rules:
  "updateMessage message updates = mergeSpec message updates
   \<and> Time (updateMessage message updates) = upd_Time updates
   \<and> Subject (updateMessage message updates) =
       (case upd_Subject updates of Some s \<Rightarrow> s | None \<Rightarrow> Subject message)
   \<and> Sender (updateMessage message updates) =
       (case upd_Sender updates of Some a \<Rightarrow> Some a | None \<Rightarrow> Sender message)
   \<and> ToList (updateMessage message updates) =
       (case upd_ToList updates of Some l \<Rightarrow> l | None \<Rightarrow> ToList message)
   \<and> CCList (updateMessage message updates) =
       (case upd_CCList updates of Some l \<Rightarrow> l | None \<Rightarrow> CCList message)
   \<and> BCCList (updateMessage message updates) =
       (case upd_BCCList updates of Some l \<Rightarrow> l | None \<Rightarrow> BCCList message)
   \<and> Unread (updateMessage message updates) =
       (case upd_Unread updates of Some u \<Rightarrow> u | None \<Rightarrow> Unread message)
   \<and> Flags (updateMessage message updates) =
       (case upd_Flags updates of Some f \<Rightarrow> f | None \<Rightarrow> Flags message)
   \<and> LabelIDs (updateMessage message updates) =
       (case upd_LabelIDs updates of
          Some ids \<Rightarrow> ids
        | None \<Rightarrow> filter (\<lambda>l. l \<notin> set (LabelIDsRemoved updates))
                    (LabelIDs message @ newIDs (LabelIDs message) (LabelIDsAdded updates)))
   \<and> distinct (newIDs (LabelIDs message) (LabelIDsAdded updates))
   \<and> set (newIDs (LabelIDs message) (LabelIDsAdded updates)) =
       set (LabelIDsAdded updates) - set (LabelIDs message)
   \<and> subseq (newIDs (LabelIDs message) (LabelIDsAdded updates)) (LabelIDsAdded updates)"
  by (simp add: updateMessage_mergeSpec mergeSpec_def differenceLabels_def unionLabels_def
      distinct_newIDs set_newIDs subseq_newIDs split: option.splits)

text \<open>
  Claim C4. For every message and every patch without a full \<^verbatim>\<open>LabelIDs\<close> replacement,
  applying the patch twice leaves the same \<^verbatim>\<open>LabelIDs\<close> list, element for element, as
  applying it once.
\<close>

theorem label_reconciliation_idempotent:
  assumes "upd_LabelIDs updates = None"
  shows "LabelIDs (updateMessage (updateMessage message updates) updates)
         = LabelIDs (updateMessage message updates)"
  using assms by (simp add: LabelIDs_updateMessage difference_union_twice)

theorem label_reconciliation_idempotent_witness:
  "LabelIDs (updateMessage (updateMessage
       \<lparr> msg_ID = ''m1'', Time = 0, Subject = ''s'', Sender = None, ToList = [], CCList = [],
         BCCList = [], Unread = 1, Flags = 0, LabelIDs = [''L1'', ''L2''] \<rparr>
       \<lparr> upd_ID = ''m1'', upd_Time = 7, upd_Subject = None, upd_Sender = None,
         upd_ToList = None, upd_CCList = None, upd_BCCList = None, upd_Unread = None,
         upd_Flags = None, upd_LabelIDs = None, LabelIDsAdded = [''L3''],
         LabelIDsRemoved = [''L1''] \<rparr>)
       \<lparr> upd_ID = ''m1'', upd_Time = 7, upd_Subject = None, upd_Sender = None,
         upd_ToList = None, upd_CCList = None, upd_BCCList = None, upd_Unread = None,
         upd_Flags = None, upd_LabelIDs = None, LabelIDsAdded = [''L3''],
         LabelIDsRemoved = [''L1''] \<rparr>)
   = [''L2'', ''L3'']"
proof -
  let ?u = "\<lparr> upd_ID = ''m1'', upd_Time = 7, upd_Subject = None, upd_Sender = None,
         upd_ToList = None, upd_CCList = None, upd_BCCList = None, upd_Unread = None,
         upd_Flags = None, upd_LabelIDs = None, LabelIDsAdded = [''L3''],
         LabelIDsRemoved = [''L1''] \<rparr>"
  have h: "upd_LabelIDs ?u = None" by simp
  show ?thesis
    by (simp only: label_reconciliation_idempotent [OF h])
       (simp add: updateMessage_def)
qed

section \<open>Properties of the event loop\<close>

subsection \<open>Helper lemmas\<close>

lemmas collaborator_defs =
  record_call_def GetEvent_def setEventID_def Emit_def isFdCloseToULimit_def triggerSync_def
  isSyncFinished_def UpdateUser_def Logout_def clientAddresses_def GetPrimaryAddress_def
  CloseConnection_def createOrUpdateAddressInfo_def createOrDeleteAddressesEvent_def
  createOrUpdateMailboxEvent_def deleteMailboxEvent_def createOrUpdateMessageEvent_def
  getMessageFromDB_def fetchMessage_def deleteMessageEvent_def isSynced_def
  GetStoreAddresses_def

lemma deferred_None: "processNextEvent_deferred env None loop w = (None, loop, w)"
  by (simp add: processNextEvent_deferred_def)

lemma deferred_NotReachable:
  "Cause e = ErrAPINotReachable \<Longrightarrow>
   processNextEvent_deferred env (Some e) loop w
     = (None, loop\<lparr>hasInternet := False\<rparr>, Emit InternetOffEvent [] w)"
  by (simp add: processNextEvent_deferred_def)

lemma deferred_fd:
  "Cause e \<noteq> ErrAPINotReachable \<Longrightarrow> isFdCloseToULimit_r env (calls w) \<Longrightarrow>
   processNextEvent_deferred env (Some e) loop w
     = (None, loop, Emit RestartBridgeEvent [] (record_call IsFdCloseToULimitCall w))"
  by (simp add: processNextEvent_deferred_def isFdCloseToULimit_def)

lemma deferred_Upgrade:
  "Cause e = ErrUpgradeApplication \<Longrightarrow> \<not> isFdCloseToULimit_r env (calls w) \<Longrightarrow>
   processNextEvent_deferred env (Some e) loop w
     = (None, loop, Emit UpgradeApplicationEvent [] (record_call IsFdCloseToULimitCall w))"
  by (simp add: processNextEvent_deferred_def isFdCloseToULimit_def)

lemma fatalKind_not_others:
  "fatalKind e \<Longrightarrow> Cause e \<noteq> ErrAPINotReachable \<and> Cause e \<noteq> ErrUpgradeApplication"
  by (cases "Cause e") (auto simp: fatalKind_def)

lemma deferred_fatal:
  "fatalKind e \<Longrightarrow> \<not> isFdCloseToULimit_r env (calls w) \<Longrightarrow>
   processNextEvent_deferred env (Some e) loop w
     = (Some e, loop, record_call IsFdCloseToULimitCall w)"
  using fatalKind_not_others [of e]
  by (auto simp add: processNextEvent_deferred_def isFdCloseToULimit_def fatalKind_def)

lemma deferred_other:
  "\<not> fatalKind e \<Longrightarrow> Cause e \<noteq> ErrAPINotReachable \<Longrightarrow> Cause e \<noteq> ErrUpgradeApplication \<Longrightarrow>
   \<not> isFdCloseToULimit_r env (calls w) \<Longrightarrow>
   processNextEvent_deferred env (Some e) loop w
     = (None, loop, record_call IsFdCloseToULimitCall w)"
  by (auto simp add: processNextEvent_deferred_def isFdCloseToULimit_def fatalKind_def)

lemma deferred_nonfatal_swallowed:
  "\<not> fatalKind e \<Longrightarrow> fst (processNextEvent_deferred env (Some e) loop w) = None"
  by (cases "isFdCloseToULimit_r env (calls w)")
     (auto simp add: processNextEvent_deferred_def isFdCloseToULimit_def fatalKind_def)

lemma deferred_keeps:
  "case processNextEvent_deferred env err loop w of
     (err', loop', w') \<Rightarrow>
        currentEventID loop' = currentEventID loop \<and> isRunning loop' = isRunning loop
      \<and> cache w' = cache w \<and> imapUpdates w' = imapUpdates w"
  by (cases "isFdCloseToULimit_r env (calls w)")
     (auto simp add: processNextEvent_deferred_def isFdCloseToULimit_def Emit_def record_call_def)

lemma processNextEvent_body_fetch_error:
  "GetEvent_r env (calls w) (currentEventID loop) = Inl e \<Longrightarrow>
   processNextEvent_body env loop w
     = (False, Err (Wrap e ''failed to get event''), loop,
        record_call (GetEventCall (currentEventID loop)) w)"
  by (simp add: processNextEvent_body_def GetEvent_def)

lemma processNextEvent_body_fetched:
  "GetEvent_r env (calls w) (currentEventID loop) = Inr event \<Longrightarrow>
   processNextEvent_body env loop w =
     (case processEvent env event (afterFetch loop w) of
        (Panic, w3) \<Rightarrow> (False, Panic, loop\<lparr>hasInternet := True\<rparr>, w3)
      | (Err e, w3) \<Rightarrow> (False, Err (Wrap e ''failed to process event''), loop\<lparr>hasInternet := True\<rparr>, w3)
      | (Ok, w3) \<Rightarrow>
          (if currentEventID loop \<noteq> EventID event then
             (case setEventID_r env (calls w3) (userID env) (EventID event) of
                Some e \<Rightarrow> (False, Err (Wrap e ''failed to save event ID to cache''),
                           loop\<lparr>hasInternet := True, currentEventID := EventID event\<rparr>,
                           record_call (SetEventIDCall (userID env) (EventID event)) w3)
              | None \<Rightarrow> (More event = 1, Ok,
                         loop\<lparr>hasInternet := True, currentEventID := EventID event\<rparr>,
                         record_call (SetEventIDCall (userID env) (EventID event))
                           (w3\<lparr>cache := (cache w3)(userID env \<mapsto> EventID event)\<rparr>)))
           else (More event = 1, Ok, loop\<lparr>hasInternet := True\<rparr>, w3)))"
  by (cases "hasInternet loop")
     (auto simp add: processNextEvent_body_def GetEvent_def afterFetch_def setEventID_def
        split: prod.splits result.splits option.splits)


lemma processNextEvent_of_body_Err:
  "processNextEvent_body env loop w = (m, Err e, loop1, w1) \<Longrightarrow>
   processNextEvent env loop w =
     (case processNextEvent_deferred env (Some e) loop1 w1 of
        (None, loop2, w2) \<Rightarrow> (m, Ok, loop2, w2)
      | (Some e', loop2, w2) \<Rightarrow> (m, Err e', loop2, w2))"
  by (simp add: processNextEvent_def)

lemma processNextEvent_of_body_Ok:
  "processNextEvent_body env loop w = (m, Ok, loop1, w1) \<Longrightarrow>
   processNextEvent env loop w = (m, Ok, loop1, w1)"
  by (simp add: processNextEvent_def deferred_None)

lemma processNextEvent_of_body_Panic:
  "processNextEvent_body env loop w = (m, Panic, loop1, w1) \<Longrightarrow>
   processNextEvent env loop w = (m, Panic, loop1, w1)"
  by (simp add: processNextEvent_def deferred_None)

lemma start_after_Ok:
  "start_after env trig (m, Ok, loop, w) =
     (Running, loop, if m then record_call GoPollNowCall (signalProcessed trig w)
                     else signalProcessed trig w)"
  by (simp add: start_after_def signalProcessed_def Let_def)

lemma start_after_Err:
  "start_after env trig (m, Err e, loop, w) =
     (Stopped, loop, record_call LogoutCall (signalProcessed trig w))"
  by (simp add: start_after_def signalProcessed_def Logout_def)

lemma processMessage_create_nil:
  assumes "em_Action d = EventCreate" "Created d = None"
  shows "processMessage env d err w = (GoOn, err, w)"
  using assms by (simp add: processMessage_def)

lemma processMessages_loop_skip:
  assumes "\<And>err w. processMessage env d err w = (GoOn, err, w)"
  shows "processMessages_loop env (pre @ d # post) err w = processMessages_loop env (pre @ post) err w"
proof (induction pre arbitrary: err w)
  case Nil
  show ?case by (simp add: assms)
next
  case (Cons m pre)
  show ?case by (simp add: Cons.IH split: prod.splits control.splits)
qed

lemma processMessages_guard:
  "(if ms \<noteq> [] then processMessages env ms w else (None, w)) = processMessages env ms w"
  by (simp add: processMessages_def)

lemma processEvent_Messages:
  assumes "\<And>w. processMessages env ms w = processMessages env ms' w"
  shows "processEvent env (event\<lparr>Messages := ms\<rparr>) w = processEvent env (event\<lparr>Messages := ms'\<rparr>) w"
  unfolding processEvent_def
  apply (simp add: processMessages_guard split del: if_split
      cong: result.case_cong option.case_cong prod.case_cong if_cong)
  apply (simp only: assms)
  done

subsection \<open>The file-descriptor probe\<close>

text \<open>
  Claim C5, as amended. For every error that the body of \<^verbatim>\<open>processNextEvent\<close> returns:
  when its cause is \<^verbatim>\<open>ErrAPINotReachable\<close>, the deferred function emits \<^verbatim>\<open>InternetOff\<close>, marks
  the loop offline and sets the error to nil before the file-descriptor check, so the probe
  is not consulted and \<^verbatim>\<open>RestartBridge\<close> is not emitted; when its cause is anything else and
  file-descriptor usage is near the ulimit, \<^verbatim>\<open>RestartBridge\<close> is emitted and the error is
  swallowed.
\<close>

theorem fd_probe_classification:
  assumes "processNextEvent_body env loop w = (m, Err e, loop1, w1)"
  shows "(Cause e = ErrAPINotReachable \<longrightarrow>
            processNextEvent env loop w
              = (m, Ok, loop1\<lparr>hasInternet := False\<rparr>, Emit InternetOffEvent [] w1))
       \<and> (Cause e \<noteq> ErrAPINotReachable \<and> isFdCloseToULimit_r env (calls w1) \<longrightarrow>
            processNextEvent env loop w
              = (m, Ok, loop1,
                 Emit RestartBridgeEvent [] (record_call IsFdCloseToULimitCall w1)))"
  by (simp add: processNextEvent_of_body_Err [OF assms] deferred_NotReachable deferred_fd)

text \<open>
  The claim as stated fails: with the remote not reachable and file-descriptor usage near
  the ulimit, only \<^verbatim>\<open>InternetOff\<close> is emitted.
\<close>

theorem fd_probe_offline_counterexample:
  "processNextEvent_body fdEnv (loopAt ''e1'') emptyWorld
     = (False, Err (Wrap ErrAPINotReachable ''failed to get event''), loopAt ''e1'',
        emptyWorld\<lparr>calls := [GetEventCall ''e1'']\<rparr>)
   \<and> isFdCloseToULimit_r fdEnv [GetEventCall ''e1'']
   \<and> processNextEvent fdEnv (loopAt ''e1'') emptyWorld
     = (False, Ok, (loopAt ''e1'')\<lparr>hasInternet := False\<rparr>,
        emptyWorld\<lparr>calls := [GetEventCall ''e1'', EmitCall InternetOffEvent []]\<rparr>)
   \<and> EmitCall RestartBridgeEvent []
       \<notin> set (calls (snd (snd (snd (processNextEvent fdEnv (loopAt ''e1'') emptyWorld)))))"
proof -
  have body: "processNextEvent_body fdEnv (loopAt ''e1'') emptyWorld
     = (False, Err (Wrap ErrAPINotReachable ''failed to get event''), loopAt ''e1'',
        emptyWorld\<lparr>calls := [GetEventCall ''e1'']\<rparr>)"
    by (simp add: processNextEvent_body_def GetEvent_def record_call_def fdEnv_def quietEnv_def
        loopAt_def emptyWorld_def)
  have all: "processNextEvent fdEnv (loopAt ''e1'') emptyWorld
     = (False, Ok, (loopAt ''e1'')\<lparr>hasInternet := False\<rparr>,
        emptyWorld\<lparr>calls := [GetEventCall ''e1'', EmitCall InternetOffEvent []]\<rparr>)"
    unfolding processNextEvent_of_body_Err [OF body]
    by (simp add: deferred_NotReachable Emit_def record_call_def emptyWorld_def)
  have fd: "isFdCloseToULimit_r fdEnv [GetEventCall ''e1'']"
    by (simp add: fdEnv_def)
  have none: "EmitCall RestartBridgeEvent []
       \<notin> set (calls (snd (snd (snd (processNextEvent fdEnv (loopAt ''e1'') emptyWorld)))))"
    unfolding all by (simp add: emptyWorld_def)
  show ?thesis
    by (intro conjI) (rule body, rule fd, rule all, rule none)
qed

theorem fd_probe_classification_witness:
  "processNextEvent fdEnv (loopAt ''e1'') emptyWorld
     = (False, Ok, (loopAt ''e1'')\<lparr>hasInternet := False\<rparr>,
        emptyWorld\<lparr>calls := [GetEventCall ''e1'', EmitCall InternetOffEvent []]\<rparr>)
   \<and> processNextEvent brokenFdEnv (loopAt ''e1'') emptyWorld
     = (False, Ok, loopAt ''e1'',
        emptyWorld\<lparr>calls := [GetEventCall ''e1'', IsFdCloseToULimitCall,
                                 EmitCall RestartBridgeEvent []]\<rparr>)"
proof -
  have off: "processNextEvent_body fdEnv (loopAt ''e1'') emptyWorld
     = (False, Err (Wrap ErrAPINotReachable ''failed to get event''), loopAt ''e1'',
        emptyWorld\<lparr>calls := [GetEventCall ''e1'']\<rparr>)"
    by (simp add: processNextEvent_body_def GetEvent_def record_call_def fdEnv_def quietEnv_def
        loopAt_def emptyWorld_def)
  have broken: "processNextEvent_body brokenFdEnv (loopAt ''e1'') emptyWorld
     = (False, Err (Wrap (ErrOther ''too many open files'') ''failed to get event''), loopAt ''e1'',
        emptyWorld\<lparr>calls := [GetEventCall ''e1'']\<rparr>)"
    by (simp add: processNextEvent_body_def GetEvent_def record_call_def brokenFdEnv_def fdEnv_def
        quietEnv_def loopAt_def emptyWorld_def)
  show ?thesis
    using fd_probe_classification [OF off] fd_probe_classification [OF broken]
    by (simp add: Emit_def record_call_def emptyWorld_def brokenFdEnv_def fdEnv_def)
qed

subsection \<open>A create delta without a message\<close>

text \<open>
  Claim C10. A message delta with action create whose \<^verbatim>\<open>Created\<close> is nil is skipped by
  \<^verbatim>\<open>processMessages\<close>: the body of the loop leaves the world and the pending error as they
  were (no store call is made), the deltas before and after it are applied as if it were
  not in the list, and so are the appliers of the event that carries it: an event with
  this delta succeeds exactly when the event without it does, and an event whose only
  message delta is this one passes the message applier without an error.
\<close>

theorem create_nil_skipped:
  assumes "em_Action d = EventCreate" and "Created d = None"
  shows "processMessage env d err w = (GoOn, err, w)
       \<and> processMessages env [d] w = (None, w)
       \<and> processMessages env (pre @ d # post) w = processMessages env (pre @ post) w
       \<and> processEvent env (event\<lparr>Messages := pre @ d # post\<rparr>) w
           = processEvent env (event\<lparr>Messages := pre @ post\<rparr>) w"
proof -
  have skip: "\<And>err w. processMessage env d err w = (GoOn, err, w)"
    using assms by (rule processMessage_create_nil)
  have all: "\<And>w. processMessages env (pre @ d # post) w = processMessages env (pre @ post) w"
    unfolding processMessages_def by (rule processMessages_loop_skip) (rule skip)
  have one: "processMessages env [d] w = (None, w)"
    by (simp add: processMessages_def skip)
  show ?thesis
    using skip one all processEvent_Messages [of env "pre @ d # post" "pre @ post" event w, OF all]
    by simp
qed

theorem create_nil_skipped_witness:
  "processEvent quietEnv ((emptyEvent ''e1'')\<lparr>Messages := [nilCreate, deleteM2]\<rparr>) emptyWorld
     = (Ok, emptyWorld\<lparr>calls := [DeleteMessageEventCall ''m2'']\<rparr>)
   \<and> processMessages quietEnv [nilCreate] emptyWorld = (None, emptyWorld)"
proof -
  have a: "em_Action nilCreate = EventCreate" and c: "Created nilCreate = None"
    by (simp_all add: nilCreate_def)
  have "processEvent quietEnv ((emptyEvent ''e1'')\<lparr>Messages := [deleteM2]\<rparr>) emptyWorld
          = (Ok, emptyWorld\<lparr>calls := [DeleteMessageEventCall ''m2'']\<rparr>)"
    by (simp add: processEvent_def processMessages_def processMessage_def deleteM2_def
        emptyEvent_def quietEnv_def emptyWorld_def EventRefreshMail_def collaborator_defs)
  then show ?thesis
    using create_nil_skipped [OF a c, of quietEnv None emptyWorld "[]" "[deleteM2]" "emptyEvent ''e1''"]
    by simp
qed

subsection \<open>More helper lemmas\<close>

lemma processNextEvent_applied:
  assumes "GetEvent_r env (calls w) (currentEventID loop) = Inr event"
      and "processEvent env event (afterFetch loop w) = (Ok, w3)"
  shows "currentEventID loop = EventID event \<Longrightarrow>
           processNextEvent env loop w = (More event = 1, Ok, loop\<lparr>hasInternet := True\<rparr>, w3)"
    and "currentEventID loop \<noteq> EventID event \<Longrightarrow>
         setEventID_r env (calls w3) (userID env) (EventID event) = None \<Longrightarrow>
           processNextEvent env loop w
             = (More event = 1, Ok, loop\<lparr>hasInternet := True, currentEventID := EventID event\<rparr>,
                record_call (SetEventIDCall (userID env) (EventID event))
                  (w3\<lparr>cache := (cache w3)(userID env \<mapsto> EventID event)\<rparr>))"
    and "currentEventID loop \<noteq> EventID event \<Longrightarrow>
         setEventID_r env (calls w3) (userID env) (EventID event) = Some e \<Longrightarrow>
           processNextEvent_body env loop w
             = (False, Err (Wrap e ''failed to save event ID to cache''),
                loop\<lparr>hasInternet := True, currentEventID := EventID event\<rparr>,
                record_call (SetEventIDCall (userID env) (EventID event)) w3)"
  using assms
  by (simp_all add: processNextEvent_body_fetched processNextEvent_of_body_Ok)

lemma processNextEvent_more_of_body:
  "fst (processNextEvent env loop w) = fst (processNextEvent_body env loop w)"
  by (simp add: processNextEvent_def split: prod.splits result.splits option.splits)

lemma processEvent_emptyEvent:
  "processEvent env ((emptyEvent eventID)\<lparr>More := n\<rparr>) w = (Ok, w)"
  by (simp add: processEvent_def emptyEvent_def)


lemma iteration_not_stop:
  "trig \<noteq> StopCh \<Longrightarrow> start_before env loop0 w0 = (loop, w) \<Longrightarrow>
   iteration env trig loop0 w0 = start_after env trig (processNextEvent env loop w)"
  by (simp add: iteration_def)

lemma processAddresses_UpdateUser_fails:
  "UpdateUser_r env (calls w @ [AddressesCall]) = Some e \<Longrightarrow>
   processAddresses env addressEvents w
     = (Err (Wrap e ''failed to update user''),
        w\<lparr>calls := calls w @ [AddressesCall, UpdateUserCall, LogoutCall]\<rparr>)"
  by (simp add: processAddresses_def clientAddresses_def UpdateUser_def Logout_def record_call_def)

lemma start_after_Ok_iteration:
  "trig \<noteq> StopCh \<Longrightarrow> start_before env loop0 w0 = (loop, w) \<Longrightarrow>
   processNextEvent env loop w = (m, Ok, loop', w') \<Longrightarrow>
   iteration env trig loop0 w0
     = (Running, loop', if m then record_call GoPollNowCall (signalProcessed trig w')
                        else signalProcessed trig w')"
  by (simp add: iteration_not_stop start_after_Ok)

lemma processEvent_refresh:
  "(Refresh event AND EventRefreshMail) \<noteq> 0 \<Longrightarrow> processEvent env event w = (Ok, triggerSync w)"
  by (simp add: processEvent_def)

subsection \<open>The \<^verbatim>\<open>More\<close> flag\<close>

text \<open>
  Claim C6, as amended. For every fetched event whose appliers succeed,
  \<^verbatim>\<open>processNextEvent\<close> returns \<^verbatim>\<open>more = (More == 1)\<close> with a nil error when the cursor is
  at the event's id already or the cursor write succeeds, and \<^verbatim>\<open>more = false\<close> when the
  cursor write fails; \<^verbatim>\<open>start\<close> spawns another \<^verbatim>\<open>pollNow\<close> right after the pass exactly when
  \<^verbatim>\<open>processNextEvent\<close> returned \<^verbatim>\<open>more = true\<close> with a nil error, without waiting for the
  ticker.
\<close>

theorem more_flag_returned:
  assumes "GetEvent_r env (calls w) (currentEventID loop) = Inr event"
      and "processEvent env event (afterFetch loop w) = (Ok, w3)"
  shows "fst (processNextEvent env loop w)
           = (More event = 1 \<and>
              (currentEventID loop = EventID event
               \<or> setEventID_r env (calls w3) (userID env) (EventID event) = None))
       \<and> (currentEventID loop = EventID event
            \<or> setEventID_r env (calls w3) (userID env) (EventID event) = None
          \<longrightarrow> fst (snd (processNextEvent env loop w)) = Ok)
       \<and> start_after env trig (True, Ok, loop', w')
           = (Running, loop', record_call GoPollNowCall (signalProcessed trig w'))
       \<and> start_after env trig (False, Ok, loop', w') = (Running, loop', signalProcessed trig w')"
proof -
  have "fst (processNextEvent_body env loop w)
           = (More event = 1 \<and>
              (currentEventID loop = EventID event
               \<or> setEventID_r env (calls w3) (userID env) (EventID event) = None))"
    using assms by (auto simp add: processNextEvent_body_fetched split: option.splits)
  moreover have "currentEventID loop = EventID event
            \<or> setEventID_r env (calls w3) (userID env) (EventID event) = None
          \<longrightarrow> fst (snd (processNextEvent env loop w)) = Ok"
    using processNextEvent_applied(1,2) [OF assms]
    by (cases "currentEventID loop = EventID event") auto
  ultimately show ?thesis
    by (simp add: processNextEvent_more_of_body start_after_Ok)
qed

text \<open>
  The claim as stated fails: event \<open>e2\<close> has \<^verbatim>\<open>More = 1\<close> and its appliers succeed, the
  cursor write fails, and \<^verbatim>\<open>processNextEvent\<close> returns \<^verbatim>\<open>more = false\<close>; the pass spawns no
  \<^verbatim>\<open>pollNow\<close>.
\<close>

theorem more_flag_write_failure_counterexample:
  "More ((emptyEvent ''e2'')\<lparr>More := 1\<rparr>) = 1
   \<and> GetEvent_r moreWriteFailsEnv (calls emptyWorld) (currentEventID (loopAt ''e1''))
       = Inr ((emptyEvent ''e2'')\<lparr>More := 1\<rparr>)
   \<and> processEvent moreWriteFailsEnv ((emptyEvent ''e2'')\<lparr>More := 1\<rparr>)
         (afterFetch (loopAt ''e1'') emptyWorld)
       = (Ok, emptyWorld\<lparr>calls := [GetEventCall ''e1'']\<rparr>)
   \<and> processNextEvent moreWriteFailsEnv (loopAt ''e1'') emptyWorld
       = (False, Ok, loopAt ''e2'',
          emptyWorld\<lparr>calls := [GetEventCall ''e1'', SetEventIDCall ''user'' ''e2'',
                                   IsFdCloseToULimitCall]\<rparr>)
   \<and> iteration moreWriteFailsEnv TickerC (loopAt ''e1'') emptyWorld
       = (Running, loopAt ''e2'',
          emptyWorld\<lparr>calls := [IsSyncFinishedCall, GetEventCall ''e1'',
                                   SetEventIDCall ''user'' ''e2'', IsFdCloseToULimitCall]\<rparr>)"
  by (simp add: iteration_def start_before_def start_after_def isBeforeFirstStart_def
      processNextEvent_def processNextEvent_body_def processNextEvent_deferred_def
      processEvent_def EventRefreshMail_def afterFetch_def collaborator_defs
      moreWriteFailsEnv_def moreEnv_def quietEnv_def loopAt_def emptyWorld_def emptyEvent_def)

theorem more_flag_returned_witness:
  "fst (processNextEvent moreEnv (loopAt ''e1'') emptyWorld)
   \<and> \<not> fst (processNextEvent moreWriteFailsEnv (loopAt ''e1'') emptyWorld)
   \<and> start_after moreEnv PollCh (True, Ok, loopAt ''e2'', emptyWorld)
       = (Running, loopAt ''e2'', emptyWorld\<lparr>calls := [EventProcessedCall, GoPollNowCall]\<rparr>)"
proof -
  have g1: "GetEvent_r moreEnv (calls emptyWorld) (currentEventID (loopAt ''e1''))
              = Inr ((emptyEvent ''e2'')\<lparr>More := 1\<rparr>)"
    by (simp add: moreEnv_def)
  have g2: "GetEvent_r moreWriteFailsEnv (calls emptyWorld) (currentEventID (loopAt ''e1''))
              = Inr ((emptyEvent ''e2'')\<lparr>More := 1\<rparr>)"
    by (simp add: moreWriteFailsEnv_def moreEnv_def)
  have p1: "processEvent moreEnv ((emptyEvent ''e2'')\<lparr>More := 1\<rparr>)
              (afterFetch (loopAt ''e1'') emptyWorld)
            = (Ok, afterFetch (loopAt ''e1'') emptyWorld)"
    by (rule processEvent_emptyEvent)
  have p2: "processEvent moreWriteFailsEnv ((emptyEvent ''e2'')\<lparr>More := 1\<rparr>)
              (afterFetch (loopAt ''e1'') emptyWorld)
            = (Ok, afterFetch (loopAt ''e1'') emptyWorld)"
    by (rule processEvent_emptyEvent)
  show ?thesis
    using more_flag_returned [OF g1 p1, of PollCh "loopAt ''e2''" emptyWorld]
          more_flag_returned [OF g2 p2, of PollCh "loopAt ''e2''" emptyWorld]
    by (simp add: moreWriteFailsEnv_def moreEnv_def quietEnv_def loopAt_def emptyEvent_def
        signalProcessed_def record_call_def emptyWorld_def)
qed


subsection \<open>Fatal errors\<close>

text \<open>
  What a pass of the loop does with an error that the body of \<^verbatim>\<open>processNextEvent\<close>
  returns, while file-descriptor usage is not near the ulimit or the error is of no fatal
  kind. A fatal error (cause \<^verbatim>\<open>ErrInvalidToken\<close> or an \<^verbatim>\<open>ErrUnauthorized\<close>, however
  wrapped) with file-descriptor usage not near the ulimit passes the deferred function,
  \<^verbatim>\<open>start\<close> invokes \<^verbatim>\<open>Logout\<close> exactly once after the completion signal and returns: the
  run ends whatever else is waiting. An error of another kind is swallowed, \<^verbatim>\<open>start\<close>
  does not invoke \<^verbatim>\<open>Logout\<close> and the run goes on. The address applier has its own
  \<^verbatim>\<open>Logout\<close>: a failed \<^verbatim>\<open>UpdateUser\<close> logs the user out once before the error is
  returned, whatever its kind.
\<close>

lemma error_classification_of_a_pass:
  assumes "trig \<noteq> StopCh" and "start_before env loop0 w0 = (loop, w)"
      and "processNextEvent_body env loop w = (m, Err e, loop1, w1)"
  shows "(fatalKind e \<and> \<not> isFdCloseToULimit_r env (calls w1) \<longrightarrow>
            processNextEvent env loop w = (m, Err e, loop1, record_call IsFdCloseToULimitCall w1)
          \<and> run env (trig # rest) loop0 w0
              = (Stopped, loop1,
                 record_call LogoutCall
                   (signalProcessed trig (record_call IsFdCloseToULimitCall w1))))
       \<and> (\<not> fatalKind e \<longrightarrow>
            (case processNextEvent env loop w of
               (m', r, loop', w') \<Rightarrow>
                 m' = m \<and> r = Ok
               \<and> run env (trig # rest) loop0 w0
                   = run env rest loop'
                       (if m then record_call GoPollNowCall (signalProcessed trig w')
                        else signalProcessed trig w')))
       \<and> (UpdateUser_r env (calls wa @ [AddressesCall]) = Some ea \<longrightarrow>
            processAddresses env addressEvents wa
              = (Err (Wrap ea ''failed to update user''),
                 wa\<lparr>calls := calls wa @ [AddressesCall, UpdateUserCall, LogoutCall]\<rparr>))"
proof -
  note it = iteration_not_stop [OF assms(1,2)]
  note pne = processNextEvent_of_body_Err [OF assms(3)]
  have a: "processNextEvent env loop w = (m, Err e, loop1, record_call IsFdCloseToULimitCall w1)
          \<and> run env (trig # rest) loop0 w0
              = (Stopped, loop1,
                 record_call LogoutCall
                   (signalProcessed trig (record_call IsFdCloseToULimitCall w1)))"
    if "fatalKind e" "\<not> isFdCloseToULimit_r env (calls w1)"
  proof -
    have p: "processNextEvent env loop w = (m, Err e, loop1, record_call IsFdCloseToULimitCall w1)"
      by (simp add: pne deferred_fatal [OF that])
    have "iteration env trig loop0 w0
            = (Stopped, loop1,
               record_call LogoutCall (signalProcessed trig (record_call IsFdCloseToULimitCall w1)))"
      by (simp add: it p start_after_Err)
    then show ?thesis using p by simp
  qed
  have c: "case processNextEvent env loop w of
               (m', r, loop', w') \<Rightarrow>
                 m' = m \<and> r = Ok
               \<and> run env (trig # rest) loop0 w0
                   = run env rest loop'
                       (if m then record_call GoPollNowCall (signalProcessed trig w')
                        else signalProcessed trig w')"
    if "\<not> fatalKind e"
  proof -
    have "fst (processNextEvent_deferred env (Some e) loop1 w1) = None"
      using that by (rule deferred_nonfatal_swallowed)
    then obtain loop2 w2 where d: "processNextEvent_deferred env (Some e) loop1 w1 = (None, loop2, w2)"
      by (cases "processNextEvent_deferred env (Some e) loop1 w1") auto
    have p: "processNextEvent env loop w = (m, Ok, loop2, w2)"
      by (simp add: pne d)
    have "iteration env trig loop0 w0
            = (Running, loop2, if m then record_call GoPollNowCall (signalProcessed trig w2)
                               else signalProcessed trig w2)"
      by (simp add: it p start_after_Ok)
    then show ?thesis by (simp add: p)
  qed
  show ?thesis
    using a c processAddresses_UpdateUser_fails [of env wa ea addressEvents] by blast
qed

text \<open>
  Scenario S6 of the spec: the remote rejects the token, file-descriptor usage is low; the
  first pass logs the user out once and the run ends, the second tick is never served.
\<close>

lemma invalid_token_ends_run:
  "run invalidTokenEnv [TickerC, TickerC] (loopAt ''e5'') emptyWorld
     = (Stopped, loopAt ''e5'',
        emptyWorld\<lparr>calls := [IsSyncFinishedCall, GetEventCall ''e5'', IsFdCloseToULimitCall,
                                 LogoutCall]\<rparr>)"
proof -
  have t: "TickerC \<noteq> StopCh" by simp
  have sb: "start_before invalidTokenEnv (loopAt ''e5'') emptyWorld
              = (loopAt ''e5'', emptyWorld\<lparr>calls := [IsSyncFinishedCall]\<rparr>)"
    by (simp add: start_before_def isBeforeFirstStart_def collaborator_defs invalidTokenEnv_def
        quietEnv_def loopAt_def emptyWorld_def)
  have body: "processNextEvent_body invalidTokenEnv (loopAt ''e5'')
                (emptyWorld\<lparr>calls := [IsSyncFinishedCall]\<rparr>)
     = (False, Err (Wrap ErrInvalidToken ''failed to get event''), loopAt ''e5'',
        emptyWorld\<lparr>calls := [IsSyncFinishedCall, GetEventCall ''e5'']\<rparr>)"
    by (simp add: processNextEvent_body_def collaborator_defs invalidTokenEnv_def
        quietEnv_def loopAt_def emptyWorld_def)
  show ?thesis
    using error_classification_of_a_pass [OF t sb body, of "[TickerC]"]
    by (simp add: fatalKind_def invalidTokenEnv_def quietEnv_def emptyWorld_def
        signalProcessed_def record_call_def)
qed

text \<open>
  Claim C7 says that every fatal error (\<^verbatim>\<open>InvalidToken\<close> or \<^verbatim>\<open>Unauthorized\<close>, also
  wrapped) is left unswallowed, ends the loop and logs the user out exactly once, and the
  comments of \<^verbatim>\<open>processNextEvent\<close> say the same: all errors are filtered out in the defer
  except the invalid token error, which is returned and stops the event loop. The code
  does not do so when file-descriptor usage is near the ulimit: the file-descriptor check
  of the deferred function comes before the check for the fatal kinds and sets every
  error to nil. For a fatal error of the body with file-descriptor usage near the ulimit,
  \<^verbatim>\<open>processNextEvent\<close> emits \<^verbatim>\<open>RestartBridge\<close> and returns a nil error, the pass ends with
  the loop running and without a call of \<^verbatim>\<open>Logout\<close>, and the run goes on.
\<close>

theorem fatal_error_swallowed_near_ulimit:
  assumes "trig \<noteq> StopCh" and "start_before env loop0 w0 = (loop, w)"
      and "processNextEvent_body env loop w = (m, Err e, loop1, w1)"
      and "fatalKind e"
      and "isFdCloseToULimit_r env (calls w1)"
  shows "processNextEvent env loop w
           = (m, Ok, loop1, Emit RestartBridgeEvent [] (record_call IsFdCloseToULimitCall w1))
       \<and> iteration env trig loop0 w0
           = (Running, loop1,
              if m then record_call GoPollNowCall
                          (signalProcessed trig
                             (Emit RestartBridgeEvent [] (record_call IsFdCloseToULimitCall w1)))
              else signalProcessed trig
                     (Emit RestartBridgeEvent [] (record_call IsFdCloseToULimitCall w1)))
       \<and> run env (trig # rest) loop0 w0
           = run env rest loop1
               (if m then record_call GoPollNowCall
                           (signalProcessed trig
                              (Emit RestartBridgeEvent [] (record_call IsFdCloseToULimitCall w1)))
                else signalProcessed trig
                       (Emit RestartBridgeEvent [] (record_call IsFdCloseToULimitCall w1)))"
proof -
  have nr: "Cause e \<noteq> ErrAPINotReachable"
    using fatalKind_not_others [OF assms(4)] by simp
  have p: "processNextEvent env loop w
           = (m, Ok, loop1, Emit RestartBridgeEvent [] (record_call IsFdCloseToULimitCall w1))"
    by (simp add: processNextEvent_of_body_Err [OF assms(3)] deferred_fd [OF nr assms(5)])
  have it: "iteration env trig loop0 w0
           = (Running, loop1,
              if m then record_call GoPollNowCall
                          (signalProcessed trig
                             (Emit RestartBridgeEvent [] (record_call IsFdCloseToULimitCall w1)))
              else signalProcessed trig
                     (Emit RestartBridgeEvent [] (record_call IsFdCloseToULimitCall w1)))"
    by (rule start_after_Ok_iteration [OF assms(1,2) p])
  show ?thesis
    using p it by simp
qed

text \<open>
  The failing input: the cursor is at \<open>e5\<close>, the remote rejects the token and
  file-descriptor usage is near the ulimit. The error is swallowed, the loop is still
  running after the pass and \<^verbatim>\<open>Logout\<close> was not invoked.
\<close>

theorem fatal_error_swallowed_near_ulimit_witness:
  "processNextEvent_body invalidTokenFdEnv (loopAt ''e5'') (emptyWorld\<lparr>calls := [IsSyncFinishedCall]\<rparr>)
     = (False, Err (Wrap ErrInvalidToken ''failed to get event''), loopAt ''e5'',
        emptyWorld\<lparr>calls := [IsSyncFinishedCall, GetEventCall ''e5'']\<rparr>)
   \<and> fatalKind (Wrap ErrInvalidToken ''failed to get event'')
   \<and> run invalidTokenFdEnv [TickerC] (loopAt ''e5'') emptyWorld
     = (Running, loopAt ''e5'',
        emptyWorld\<lparr>calls := [IsSyncFinishedCall, GetEventCall ''e5'', IsFdCloseToULimitCall,
                                 EmitCall RestartBridgeEvent []]\<rparr>)
   \<and> LogoutCall \<notin> set (calls (snd (snd (run invalidTokenFdEnv [TickerC] (loopAt ''e5'') emptyWorld))))"
proof -
  have t: "TickerC \<noteq> StopCh" by simp
  have sb: "start_before invalidTokenFdEnv (loopAt ''e5'') emptyWorld
              = (loopAt ''e5'', emptyWorld\<lparr>calls := [IsSyncFinishedCall]\<rparr>)"
    by (simp add: start_before_def isBeforeFirstStart_def collaborator_defs invalidTokenFdEnv_def
        invalidTokenEnv_def quietEnv_def loopAt_def emptyWorld_def)
  have body: "processNextEvent_body invalidTokenFdEnv (loopAt ''e5'')
                (emptyWorld\<lparr>calls := [IsSyncFinishedCall]\<rparr>)
     = (False, Err (Wrap ErrInvalidToken ''failed to get event''), loopAt ''e5'',
        emptyWorld\<lparr>calls := [IsSyncFinishedCall, GetEventCall ''e5'']\<rparr>)"
    by (simp add: processNextEvent_body_def collaborator_defs invalidTokenFdEnv_def
        invalidTokenEnv_def quietEnv_def loopAt_def emptyWorld_def)
  have fk: "fatalKind (Wrap ErrInvalidToken ''failed to get event'')"
    by (simp add: fatalKind_def)
  have fd: "isFdCloseToULimit_r invalidTokenFdEnv
              (calls (emptyWorld\<lparr>calls := [IsSyncFinishedCall, GetEventCall ''e5'']\<rparr>))"
    by (simp add: invalidTokenFdEnv_def)
  have r: "run invalidTokenFdEnv [TickerC] (loopAt ''e5'') emptyWorld
     = (Running, loopAt ''e5'',
        emptyWorld\<lparr>calls := [IsSyncFinishedCall, GetEventCall ''e5'', IsFdCloseToULimitCall,
                                 EmitCall RestartBridgeEvent []]\<rparr>)"
    using fatal_error_swallowed_near_ulimit [OF t sb body fk fd, of "[]"]
    by (simp add: signalProcessed_def Emit_def record_call_def emptyWorld_def)
  have none: "LogoutCall
       \<notin> set (calls (snd (snd (run invalidTokenFdEnv [TickerC] (loopAt ''e5'') emptyWorld))))"
    unfolding r by (simp add: emptyWorld_def)
  show ?thesis
    by (intro conjI) (rule body, rule fk, rule r, rule none)
qed

subsection \<open>A failed cursor write\<close>




subsection \<open>Refresh events\<close>

text \<open>
  Claim C2, as amended. For every event whose \<^verbatim>\<open>Refresh\<close> bitmask has the \<^verbatim>\<open>MAIL\<close> bit
  set, \<^verbatim>\<open>processEvent\<close> runs none of the five appliers: all it does is one call of
  \<^verbatim>\<open>triggerSync\<close>, and it returns nil. \<^verbatim>\<open>processNextEvent\<close> then moves the in-memory
  cursor to the event's \<^verbatim>\<open>EventID\<close> in every case and, when that differs from the
  cursor before, writes it to the cache: the persisted cursor is the event's id when the
  write succeeds, and keeps its prior value when the write fails.
\<close>

theorem refresh_mail_event:
  assumes "(Refresh event AND EventRefreshMail) \<noteq> 0"
      and "GetEvent_r env (calls w) (currentEventID loop) = Inr event"
  shows "processEvent env event w0 = (Ok, triggerSync w0)
       \<and> currentEventID (fst (snd (snd (processNextEvent env loop w)))) = EventID event
       \<and> (currentEventID loop = EventID event \<longrightarrow>
            processNextEvent env loop w
              = (More event = 1, Ok, loop\<lparr>hasInternet := True\<rparr>, triggerSync (afterFetch loop w)))
       \<and> (currentEventID loop \<noteq> EventID event
            \<and> setEventID_r env (calls (triggerSync (afterFetch loop w))) (userID env) (EventID event)
                = None \<longrightarrow>
            processNextEvent env loop w
              = (More event = 1, Ok, loop\<lparr>hasInternet := True, currentEventID := EventID event\<rparr>,
                 record_call (SetEventIDCall (userID env) (EventID event))
                   ((triggerSync (afterFetch loop w))
                      \<lparr>cache := (cache w)(userID env \<mapsto> EventID event)\<rparr>))
          \<and> getEventID (userID env) (snd (snd (snd (processNextEvent env loop w)))) = EventID event)
       \<and> (currentEventID loop \<noteq> EventID event
            \<and> setEventID_r env (calls (triggerSync (afterFetch loop w))) (userID env) (EventID event)
                = Some e \<longrightarrow>
            processNextEvent_body env loop w
              = (False, Err (Wrap e ''failed to save event ID to cache''),
                 loop\<lparr>hasInternet := True, currentEventID := EventID event\<rparr>,
                 record_call (SetEventIDCall (userID env) (EventID event))
                   (triggerSync (afterFetch loop w)))
          \<and> getEventID (userID env) (snd (snd (snd (processNextEvent env loop w))))
              = getEventID (userID env) w)"
proof -
  let ?w3 = "triggerSync (afterFetch loop w)"
  have pe: "processEvent env event (afterFetch loop w) = (Ok, ?w3)"
    using assms(1) by (rule processEvent_refresh)
  have cw: "cache ?w3 = cache w"
    by (simp add: triggerSync_def afterFetch_def Emit_def record_call_def)
  note ap = processNextEvent_applied [OF assms(2) pe]
  have same: "processNextEvent env loop w
              = (More event = 1, Ok, loop\<lparr>hasInternet := True\<rparr>, ?w3)"
    if "currentEventID loop = EventID event"
    using that by (rule ap(1))
  have ok: "processNextEvent env loop w
              = (More event = 1, Ok, loop\<lparr>hasInternet := True, currentEventID := EventID event\<rparr>,
                 record_call (SetEventIDCall (userID env) (EventID event))
                   (?w3\<lparr>cache := (cache w)(userID env \<mapsto> EventID event)\<rparr>))"
    if "currentEventID loop \<noteq> EventID event"
       "setEventID_r env (calls ?w3) (userID env) (EventID event) = None"
    using ap(2) [OF that] by (simp add: cw)
  have bad: "processNextEvent_body env loop w
              = (False, Err (Wrap e ''failed to save event ID to cache''),
                 loop\<lparr>hasInternet := True, currentEventID := EventID event\<rparr>,
                 record_call (SetEventIDCall (userID env) (EventID event)) ?w3)"
    if "currentEventID loop \<noteq> EventID event"
       "setEventID_r env (calls ?w3) (userID env) (EventID event) = Some e"
    using that by (rule ap(3))
  have bad_keeps: "currentEventID (fst (snd (snd (processNextEvent env loop w)))) = EventID event
       \<and> getEventID (userID env) (snd (snd (snd (processNextEvent env loop w))))
              = getEventID (userID env) w"
    if "currentEventID loop \<noteq> EventID event"
       "setEventID_r env (calls ?w3) (userID env) (EventID event) = Some e" for e
    using deferred_keeps [where env = env
        and err = "Some (Wrap e ''failed to save event ID to cache'')"
        and loop = "loop\<lparr>hasInternet := True, currentEventID := EventID event\<rparr>"
        and w = "record_call (SetEventIDCall (userID env) (EventID event)) ?w3"]
    by (auto simp add: processNextEvent_of_body_Err [OF ap(3) [OF that]] getEventID_def cw record_call_def
        split: prod.splits option.splits)
  have cur: "currentEventID (fst (snd (snd (processNextEvent env loop w)))) = EventID event"
  proof (cases "currentEventID loop = EventID event")
    case True
    then show ?thesis by (simp add: same)
  next
    case False
    show ?thesis
    proof (cases "setEventID_r env (calls ?w3) (userID env) (EventID event)")
      case None
      with False show ?thesis by (simp add: ok)
    next
      case (Some e')
      with False show ?thesis using bad_keeps by blast
    qed
  qed
  have okp: "getEventID (userID env) (snd (snd (snd (processNextEvent env loop w)))) = EventID event"
    if "currentEventID loop \<noteq> EventID event"
       "setEventID_r env (calls ?w3) (userID env) (EventID event) = None"
    by (simp add: ok [OF that] getEventID_def record_call_def)
  show ?thesis
    using processEvent_refresh [OF assms(1), of env w0] cur same ok okp bad bad_keeps by blast
qed


text \<open>
  The claim as stated fails: with a cache whose write fails, the refresh event \<open>e5\<close>
  moves the in-memory cursor to \<open>e5\<close> while the persisted cursor stays at \<open>e4\<close>.
\<close>

theorem refresh_mail_write_failure_counterexample:
  "(Refresh refreshEvent AND EventRefreshMail) \<noteq> 0
   \<and> GetEvent_r refreshWriteFailsEnv (calls (worldAt ''e4'')) (currentEventID (loopAt ''e4''))
       = Inr refreshEvent
   \<and> processNextEvent refreshWriteFailsEnv (loopAt ''e4'') (worldAt ''e4'')
       = (False, Ok, loopAt ''e5'',
          (worldAt ''e4'')\<lparr>calls := [GetEventCall ''e4'', TriggerSyncCall,
                                      SetEventIDCall ''user'' ''e5'', IsFdCloseToULimitCall]\<rparr>)
   \<and> getEventID ''user''
         (snd (snd (snd (processNextEvent refreshWriteFailsEnv (loopAt ''e4'') (worldAt ''e4'')))))
       = ''e4''"
  by (simp add: processNextEvent_def processNextEvent_body_def processNextEvent_deferred_def
      processEvent_def EventRefreshMail_def collaborator_defs getEventID_def
      refreshWriteFailsEnv_def refreshEnv_def refreshEvent_def quietEnv_def loopAt_def
      worldAt_def emptyWorld_def emptyEvent_def)

theorem refresh_mail_event_witness:
  "processEvent refreshEnv refreshEvent (worldAt ''e4'')
     = (Ok, (worldAt ''e4'')\<lparr>calls := [TriggerSyncCall]\<rparr>)
   \<and> processNextEvent refreshEnv (loopAt ''e4'') (worldAt ''e4'')
     = (False, Ok, loopAt ''e5'',
        \<lparr> calls = [GetEventCall ''e4'', TriggerSyncCall, SetEventIDCall ''user'' ''e5''],
          cache = [''user'' \<mapsto> ''e5''], imapUpdates = None \<rparr>)
   \<and> getEventID ''user''
         (snd (snd (snd (processNextEvent refreshEnv (loopAt ''e4'') (worldAt ''e4''))))) = ''e5''
   \<and> getEventID ''user''
         (snd (snd (snd (processNextEvent refreshWriteFailsEnv (loopAt ''e4'') (worldAt ''e4'')))))
       = ''e4''
   \<and> currentEventID
         (fst (snd (snd (processNextEvent refreshWriteFailsEnv (loopAt ''e4'') (worldAt ''e4'')))))
       = ''e5''"
proof -
  have r: "(Refresh refreshEvent AND EventRefreshMail) \<noteq> 0"
    by (simp add: refreshEvent_def EventRefreshMail_def)
  have g1: "GetEvent_r refreshEnv (calls (worldAt ''e4'')) (currentEventID (loopAt ''e4''))
              = Inr refreshEvent"
    by (simp add: refreshEnv_def)
  have g2: "GetEvent_r refreshWriteFailsEnv (calls (worldAt ''e4''))
              (currentEventID (loopAt ''e4'')) = Inr refreshEvent"
    by (simp add: refreshWriteFailsEnv_def refreshEnv_def)
  show ?thesis
    using refresh_mail_event [OF r g1, of "worldAt ''e4''" "ErrOther ''disk full''"]
          refresh_mail_event [OF r g2, of "worldAt ''e4''" "ErrOther ''disk full''"]
    by (simp add: afterFetch_def collaborator_defs getEventID_def
        refreshWriteFailsEnv_def refreshEnv_def refreshEvent_def quietEnv_def loopAt_def
        worldAt_def emptyWorld_def emptyEvent_def)
qed

subsection \<open>An update for a message that exists nowhere\<close>

text \<open>
  Claim C9 says that such a delta is skipped without an error. The code does skip the
  store write, but the \<^verbatim>\<open>continue\<close> leaves \<^verbatim>\<open>ErrNoSuchAPIID\<close> in the named result \<^verbatim>\<open>err\<close>
  of \<^verbatim>\<open>processMessages\<close>: unless a later delta of the event overwrites it, the function
  returns it after the loop. For an update or update_flags delta whose message neither
  the store nor the remote knows: the body of the loop makes the two lookups, writes
  nothing, and goes on with \<^verbatim>\<open>err = ErrNoSuchAPIID\<close>; when it is the only message delta,
  \<^verbatim>\<open>processMessages\<close> returns \<^verbatim>\<open>ErrNoSuchAPIID\<close> and \<^verbatim>\<open>processEvent\<close> fails.
\<close>

theorem stale_update_leaves_error:
  assumes "em_Action d = EventUpdate \<or> em_Action d = EventUpdateFlags"
      and "Updated d = Some updates"
      and "getMessageFromDB_r env (calls w) (em_ID d) = Inl ErrNoSuchAPIID"
      and "fetchMessage_r env (calls w @ [GetMessageFromDBCall (em_ID d)]) (em_ID d)
             = Inl ErrNoSuchAPIID"
  shows "processMessage env d err w
           = (GoOn, Some ErrNoSuchAPIID,
              w\<lparr>calls := calls w @ [GetMessageFromDBCall (em_ID d), FetchMessageCall (em_ID d)]\<rparr>)
       \<and> processMessages env [d] w
           = (Some ErrNoSuchAPIID,
              w\<lparr>calls := calls w @ [GetMessageFromDBCall (em_ID d), FetchMessageCall (em_ID d)]\<rparr>)
       \<and> processEvent env ((emptyEvent eventID)\<lparr>Messages := [d]\<rparr>) w
           = (Err (Wrap ErrNoSuchAPIID ''failed to process message events''),
              w\<lparr>calls := calls w @ [GetMessageFromDBCall (em_ID d), FetchMessageCall (em_ID d)]\<rparr>)"
proof -
  have one: "processMessage env d err w
           = (GoOn, Some ErrNoSuchAPIID,
              w\<lparr>calls := calls w @ [GetMessageFromDBCall (em_ID d), FetchMessageCall (em_ID d)]\<rparr>)"
    for err
    using assms
    by (auto simp add: processMessage_def getMessageFromDB_def fetchMessage_def record_call_def)
  have all: "processMessages env [d] w
           = (Some ErrNoSuchAPIID,
              w\<lparr>calls := calls w @ [GetMessageFromDBCall (em_ID d), FetchMessageCall (em_ID d)]\<rparr>)"
    by (simp add: processMessages_def one)
  have "processEvent env ((emptyEvent eventID)\<lparr>Messages := [d]\<rparr>) w
           = (Err (Wrap ErrNoSuchAPIID ''failed to process message events''),
              w\<lparr>calls := calls w @ [GetMessageFromDBCall (em_ID d), FetchMessageCall (em_ID d)]\<rparr>)"
    by (simp add: processEvent_def emptyEvent_def all)
  with one all show ?thesis by simp
qed

text \<open>
  Scenario S3: the applier returns the error, the cursor stays at \<open>e2\<close>, no cursor write
  is attempted and the error is swallowed by the deferred function. The same delta
  followed by a delete delta is skipped cleanly.
\<close>

theorem stale_update_leaves_error_witness:
  "processMessages staleEnv [staleUpdate] (worldAt ''e2'')
     = (Some ErrNoSuchAPIID,
        (worldAt ''e2'')\<lparr>calls := [GetMessageFromDBCall ''mX'', FetchMessageCall ''mX'']\<rparr>)
   \<and> processNextEvent staleEnv (loopAt ''e2'') (worldAt ''e2'')
     = (False, Ok, loopAt ''e2'',
        (worldAt ''e2'')\<lparr>calls := [GetEventCall ''e2'', GetMessageFromDBCall ''mX'',
                                    FetchMessageCall ''mX'', IsFdCloseToULimitCall]\<rparr>)
   \<and> processMessages staleEnv [staleUpdate, deleteM2] (worldAt ''e2'')
     = (None,
        (worldAt ''e2'')\<lparr>calls := [GetMessageFromDBCall ''mX'', FetchMessageCall ''mX'',
                                    DeleteMessageEventCall ''m2'']\<rparr>)"
proof -
  have a: "em_Action staleUpdate = EventUpdate \<or> em_Action staleUpdate = EventUpdateFlags"
    and u: "Updated staleUpdate = Some (emptyPatch ''mX'')"
    by (simp_all add: staleUpdate_def)
  have g: "getMessageFromDB_r staleEnv (calls w) (em_ID staleUpdate) = Inl ErrNoSuchAPIID"
    and f: "fetchMessage_r staleEnv (calls w @ [GetMessageFromDBCall (em_ID staleUpdate)])
              (em_ID staleUpdate) = Inl ErrNoSuchAPIID" for w
    by (simp_all add: staleEnv_def quietEnv_def)
  note th = stale_update_leaves_error [OF a u g f]
  have first: "processMessages staleEnv [staleUpdate] (worldAt ''e2'')
     = (Some ErrNoSuchAPIID,
        (worldAt ''e2'')\<lparr>calls := [GetMessageFromDBCall ''mX'', FetchMessageCall ''mX'']\<rparr>)"
    using th [of None "worldAt ''e2''"] by (simp add: staleUpdate_def worldAt_def emptyWorld_def)
  have ge: "GetEvent_r staleEnv (calls (worldAt ''e2'')) (currentEventID (loopAt ''e2''))
              = Inr ((emptyEvent ''e3'')\<lparr>Messages := [staleUpdate]\<rparr>)"
    by (simp add: staleEnv_def)
  have pe: "processEvent staleEnv ((emptyEvent ''e3'')\<lparr>Messages := [staleUpdate]\<rparr>)
              (afterFetch (loopAt ''e2'') (worldAt ''e2''))
            = (Err (Wrap ErrNoSuchAPIID ''failed to process message events''),
               (worldAt ''e2'')\<lparr>calls := [GetEventCall ''e2'', GetMessageFromDBCall ''mX'',
                                           FetchMessageCall ''mX'']\<rparr>)"
    using th [of None "afterFetch (loopAt ''e2'') (worldAt ''e2'')" "''e3''"]
    by (simp add: staleUpdate_def afterFetch_def record_call_def loopAt_def worldAt_def
        emptyWorld_def)
  have body: "processNextEvent_body staleEnv (loopAt ''e2'') (worldAt ''e2'')
     = (False,
        Err (Wrap (Wrap ErrNoSuchAPIID ''failed to process message events'')
               ''failed to process event''),
        (loopAt ''e2'')\<lparr>hasInternet := True\<rparr>,
        (worldAt ''e2'')\<lparr>calls := [GetEventCall ''e2'', GetMessageFromDBCall ''mX'',
                                    FetchMessageCall ''mX'']\<rparr>)"
    by (simp add: processNextEvent_body_fetched [OF ge] pe)
  have second: "processNextEvent staleEnv (loopAt ''e2'') (worldAt ''e2'')
     = (False, Ok, loopAt ''e2'',
        (worldAt ''e2'')\<lparr>calls := [GetEventCall ''e2'', GetMessageFromDBCall ''mX'',
                                    FetchMessageCall ''mX'', IsFdCloseToULimitCall]\<rparr>)"
    unfolding processNextEvent_of_body_Err [OF body]
    by (simp add: processNextEvent_deferred_def isFdCloseToULimit_def record_call_def
        staleEnv_def quietEnv_def loopAt_def worldAt_def emptyWorld_def)
  have third: "processMessages staleEnv [staleUpdate, deleteM2] (worldAt ''e2'')
     = (None,
        (worldAt ''e2'')\<lparr>calls := [GetMessageFromDBCall ''mX'', FetchMessageCall ''mX'',
                                    DeleteMessageEventCall ''m2'']\<rparr>)"
    by (simp add: processMessages_def processMessage_def collaborator_defs staleUpdate_def
        deleteM2_def staleEnv_def quietEnv_def worldAt_def emptyWorld_def)
  show ?thesis
    by (intro conjI) (rule first, rule second, rule third)
qed

subsection \<open>The cursor\<close>

text \<open>Only \<^verbatim>\<open>setEventID\<close> writes to the cache: every applier leaves it as it is.\<close>

lemma cache_record_call [simp]: "cache (record_call c w) = cache w"
  by (simp add: record_call_def)

lemma cache_Emit [simp]: "cache (Emit ev d w) = cache w"
  by (simp add: Emit_def)

lemma cache_triggerSync [simp]: "cache (triggerSync w) = cache w"
  by (simp add: triggerSync_def)

lemma cache_CloseConnection [simp]: "cache (CloseConnection email w) = cache w"
  by (simp add: CloseConnection_def)

lemma cache_afterFetch [simp]: "cache (afterFetch loop w) = cache w"
  by (simp add: afterFetch_def)

lemma cache_signalProcessed [simp]: "cache (signalProcessed trig w) = cache w"
  by (simp add: signalProcessed_def)

lemma cache_imapNotice [simp]: "cache (imapNotice env address notice w) = cache w"
  by (simp add: imapNotice_def imapSendUpdate_def split: option.splits)

lemma cache_processNotices_addresses [simp]:
  "cache (processNotices_addresses env addresses notice w) = cache w"
  by (induction addresses arbitrary: w) simp_all

lemma cache_processNotices [simp]: "cache (processNotices env notices w) = cache w"
  by (induction notices arbitrary: w) (simp_all add: GetStoreAddresses_def)

lemma cache_processMessageCounts [simp]:
  "cache (snd (processMessageCounts env counts w)) = cache w"
  by (simp add: processMessageCounts_def isSynced_def split: sum.splits)

lemma cache_processMessage [simp]:
  "cache (snd (snd (processMessage env message err w))) = cache w"
  by (simp add: processMessage_def createOrUpdateMessageEvent_def getMessageFromDB_def
      fetchMessage_def deleteMessageEvent_def split: option.splits sum.splits)

lemma cache_processMessages_loop [simp]:
  "cache (snd (processMessages_loop env messages err w)) = cache w"
proof (induction messages arbitrary: err w)
  case Nil
  show ?case by simp
next
  case (Cons message rest)
  obtain c err1 w1 where step: "processMessage env message err w = (c, err1, w1)"
    by (cases "processMessage env message err w") auto
  have "cache w1 = cache w"
    using cache_processMessage [of env message err w] by (simp add: step)
  then show ?case
    by (cases c) (simp_all add: step Cons.IH)
qed

lemma cache_processMessages [simp]: "cache (snd (processMessages env messages w)) = cache w"
  by (simp add: processMessages_def)

lemma cache_processLabels [simp]: "cache (snd (processLabels env labels w)) = cache w"
proof (induction labels arbitrary: w)
  case Nil
  show ?case by simp
next
  case (Cons eventLabel rest)
  show ?case
    by (simp add: createOrUpdateMailboxEvent_def deleteMailboxEvent_def Cons.IH
        split: option.splits)
qed

lemma cache_processAddresses_loop [simp]:
  "cache (snd (processAddresses_loop env oldList addressEvents w)) = cache w"
proof (induction addressEvents arbitrary: w)
  case Nil
  show ?case by simp
next
  case (Cons addressEvent rest)
  show ?case
    by (cases "ea_Action addressEvent")
       (simp_all add: GetPrimaryAddress_def Cons.IH split: option.splits)
qed

lemma cache_processAddresses [simp]:
  "cache (snd (processAddresses env addressEvents w)) = cache w"
proof -
  obtain p w3 where l: "processAddresses_loop env (Addresses_r env (calls w)) addressEvents
          (record_call UpdateUserCall (record_call AddressesCall w)) = (p, w3)"
    by (cases "processAddresses_loop env (Addresses_r env (calls w)) addressEvents
          (record_call UpdateUserCall (record_call AddressesCall w))") auto
  have "cache w3 = cache w"
    using cache_processAddresses_loop [of env "Addresses_r env (calls w)" addressEvents
        "record_call UpdateUserCall (record_call AddressesCall w)"]
    by (simp add: l)
  then show ?thesis
    by (cases p)
       (simp_all add: processAddresses_def clientAddresses_def UpdateUser_def Logout_def
        createOrUpdateAddressInfo_def createOrDeleteAddressesEvent_def l
        split: option.splits)
qed

lemma cache_processAddressesD:
  "processAddresses env addressEvents w = (r, w') \<Longrightarrow> cache w' = cache w"
  by (metis cache_processAddresses snd_conv)

lemma cache_processLabelsD:
  "processLabels env labels w = (r, w') \<Longrightarrow> cache w' = cache w"
  by (metis cache_processLabels snd_conv)

lemma cache_processMessagesD:
  "processMessages env messages w = (r, w') \<Longrightarrow> cache w' = cache w"
  by (metis cache_processMessages snd_conv)

lemma cache_processMessageCountsD:
  "processMessageCounts env counts w = (r, w') \<Longrightarrow> cache w' = cache w"
  by (metis cache_processMessageCounts snd_conv)

lemma cache_processEventD:
  "processEvent env event w = (r, w') \<Longrightarrow> cache w' = cache w"
  by (auto simp: processEvent_def
      split: if_splits prod.splits result.splits option.splits
      dest!: cache_processAddressesD cache_processLabelsD cache_processMessagesD
        cache_processMessageCountsD)

lemma deferred_keepsD:
  "processNextEvent_deferred env err loop w = (err', loop', w') \<Longrightarrow>
   currentEventID loop' = currentEventID loop \<and> cache w' = cache w"
  using deferred_keeps [where env = env and loop = loop and w = w and err = err] by simp

lemma processNextEvent_keeps_body:
  "processNextEvent_body env loop w = (m, r, loop1, w1) \<Longrightarrow>
   processNextEvent env loop w = (m', r', loop2, w2) \<Longrightarrow>
   currentEventID loop2 = currentEventID loop1 \<and> cache w2 = cache w1"
  by (cases r)
     (auto simp add: processNextEvent_def split: prod.splits option.splits dest!: deferred_keepsD)

lemma last_applied_append:
  "last (c # xs @ ys) = last (last (c # xs) # ys)"
  by (cases ys) simp_all

lemma setFirstEventID_cursor:
  "setFirstEventID env loop w = (err, loop', w') \<Longrightarrow>
   currentEventID loop' = last (currentEventID loop # headAdopted env w)
   \<and> (cache w' = cache w
        \<or> (headAdopted env w \<noteq> [] \<and> cache w' = (cache w)(userID env \<mapsto> currentEventID loop')))"
  by (auto simp add: setFirstEventID_def headAdopted_def GetEvent_def setEventID_def Let_def
      split: sum.splits option.splits)

lemma processNextEvent_body_cursor:
  "processNextEvent_body env loop w = (m, r, loop', w') \<Longrightarrow>
   currentEventID loop' = last (currentEventID loop # eventApplied env loop w)
   \<and> (cache w' = cache w
        \<or> (eventApplied env loop w \<noteq> [] \<and> cache w' = (cache w)(userID env \<mapsto> currentEventID loop')))"
proof (cases "GetEvent_r env (calls w) (currentEventID loop)")
  case (Inl e)
  assume "processNextEvent_body env loop w = (m, r, loop', w')"
  then show ?thesis
    using Inl by (auto simp add: processNextEvent_body_fetch_error eventApplied_def GetEvent_def)
next
  case (Inr event)
  assume b: "processNextEvent_body env loop w = (m, r, loop', w')"
  obtain r3 w3 where pe: "processEvent env event (afterFetch loop w) = (r3, w3)"
    by (cases "processEvent env event (afterFetch loop w)") auto
  have c3: "cache w3 = cache w"
    using cache_processEventD [OF pe] by simp
  show ?thesis
    using b c3
    by (cases r3)
       (auto simp add: processNextEvent_body_fetched [OF Inr] pe eventApplied_def GetEvent_def Inr
          split: if_splits option.splits)
qed

lemma processNextEvent_cursor:
  "processNextEvent env loop w = (m, r, loop', w') \<Longrightarrow>
   currentEventID loop' = last (currentEventID loop # eventApplied env loop w)
   \<and> (cache w' = cache w
        \<or> (eventApplied env loop w \<noteq> [] \<and> cache w' = (cache w)(userID env \<mapsto> currentEventID loop')))"
proof -
  assume p: "processNextEvent env loop w = (m, r, loop', w')"
  obtain m1 r1 loop1 w1 where b: "processNextEvent_body env loop w = (m1, r1, loop1, w1)"
    by (cases "processNextEvent_body env loop w") auto
  from processNextEvent_keeps_body [OF b p] processNextEvent_body_cursor [OF b]
  show ?thesis by auto
qed

lemma start_before_cursor:
  "start_before env loop w = (loop1, w1) \<Longrightarrow>
   currentEventID loop1
     = last (currentEventID loop # (if isBeforeFirstStart loop then headAdopted env w else []))
   \<and> (cache w1 = cache w
        \<or> (isBeforeFirstStart loop \<and> headAdopted env w \<noteq> []
            \<and> cache w1 = (cache w)(userID env \<mapsto> currentEventID loop1)))"
proof (cases "isBeforeFirstStart loop")
  case False
  assume "start_before env loop w = (loop1, w1)"
  with False show ?thesis
    by (auto simp add: start_before_def isSyncFinished_def)
next
  case True
  assume sb: "start_before env loop w = (loop1, w1)"
  obtain err loop0 w0 where sf: "setFirstEventID env loop w = (err, loop0, w0)"
    by (cases "setFirstEventID env loop w") auto
  have "loop1 = loop0 \<and> cache w1 = cache w0"
    using sb True by (auto simp add: start_before_def sf isSyncFinished_def)
  with setFirstEventID_cursor [OF sf] True show ?thesis by auto
qed

lemma start_after_keeps:
  "start_after env trig (m, r, loop, w) = (st, loop', w') \<Longrightarrow> loop' = loop \<and> cache w' = cache w"
  by (cases r) (auto simp add: start_after_def Logout_def Let_def)

lemma iteration_cursor:
  assumes "iteration env trig loop w = (st, loop', w')"
  shows "currentEventID loop' = last (currentEventID loop # iterationApplied env trig loop w)
       \<and> (getEventID (userID env) w' = getEventID (userID env) w
            \<or> getEventID (userID env) w' \<in> set (iterationApplied env trig loop w))"
proof (cases "trig = StopCh")
  case True
  with assms show ?thesis
    by (auto simp add: iteration_def iterationApplied_def getEventID_def)
next
  case False
  obtain loop1 w1 where sb: "start_before env loop w = (loop1, w1)"
    by (cases "start_before env loop w") auto
  obtain m r loop2 w2 where p: "processNextEvent env loop1 w1 = (m, r, loop2, w2)"
    by (cases "processNextEvent env loop1 w1") auto
  let ?ha = "if isBeforeFirstStart loop then headAdopted env w else []"
  let ?ea = "eventApplied env loop1 w1"
  have ia: "iterationApplied env trig loop w = ?ha @ ?ea"
    using False by (simp add: iterationApplied_def sb)
  have "start_after env trig (m, r, loop2, w2) = (st, loop', w')"
    using assms False by (simp add: iteration_def sb p)
  from start_after_keeps [OF this] have fin: "loop' = loop2" "cache w' = cache w2"
    by simp_all
  note b = start_before_cursor [OF sb]
  note e = processNextEvent_cursor [OF p]
  have cur: "currentEventID loop' = last (currentEventID loop # ?ha @ ?ea)"
    using b e fin(1) by (simp only: last_applied_append [of "currentEventID loop" ?ha ?ea])
  have c1: "cache w1 = cache w \<or> (?ha \<noteq> [] \<and> cache w1 = (cache w)(userID env \<mapsto> last ?ha))"
    using b by auto
  have c2: "cache w2 = cache w1 \<or> (?ea \<noteq> [] \<and> cache w2 = (cache w1)(userID env \<mapsto> last ?ea))"
    using e by auto
  have per: "getEventID (userID env) w' = getEventID (userID env) w
            \<or> getEventID (userID env) w' \<in> set (?ha @ ?ea)"
  proof -
    consider (same) "cache w2 = cache w1" "cache w1 = cache w"
      | (head) "cache w2 = cache w1" "?ha \<noteq> []" "cache w1 = (cache w)(userID env \<mapsto> last ?ha)"
      | (event) "?ea \<noteq> []" "cache w2 = (cache w1)(userID env \<mapsto> last ?ea)"
      using c1 c2 by blast
    then show ?thesis
    proof cases
      case same
      then have "getEventID (userID env) w' = getEventID (userID env) w"
        using fin(2) by (simp add: getEventID_def)
      then show ?thesis by simp
    next
      case head
      then have "getEventID (userID env) w' = last ?ha"
        using fin(2) by (simp add: getEventID_def)
      moreover have "last ?ha \<in> set ?ha"
        using head(2) by (rule last_in_set)
      ultimately show ?thesis by auto
    next
      case event
      then have "getEventID (userID env) w' = last ?ea"
        using fin(2) by (simp add: getEventID_def)
      moreover have "last ?ea \<in> set ?ea"
        using event(1) by (rule last_in_set)
      ultimately show ?thesis by auto
    qed
  qed
  show ?thesis
    using cur per unfolding ia by blast
qed

lemma run_cursor:
  "run env triggers loop w = (st, loop', w') \<Longrightarrow>
   currentEventID loop' = last (currentEventID loop # runApplied env triggers loop w)
   \<and> (getEventID (userID env) w' = getEventID (userID env) w
        \<or> getEventID (userID env) w' \<in> set (runApplied env triggers loop w))"
proof (induction triggers arbitrary: loop w)
  case Nil
  then show ?case by simp
next
  case (Cons trig rest)
  obtain st1 loop1 w1 where it: "iteration env trig loop w = (st1, loop1, w1)"
    by (cases "iteration env trig loop w") auto
  note i = iteration_cursor [OF it]
  show ?case
  proof (cases "st1 = Running")
    case False
    then have "run env (trig # rest) loop w = (st1, loop1, w1)"
      by (cases st1) (simp_all add: it)
    with Cons.prems have "loop' = loop1" "w' = w1" by simp_all
    moreover have "runApplied env (trig # rest) loop w = iterationApplied env trig loop w"
      using False by (cases st1) (simp_all add: it)
    ultimately show ?thesis using i by simp
  next
    case True
    then have "run env rest loop1 w1 = (st, loop', w')"
      using Cons.prems by (simp add: it)
    note r = Cons.IH [OF this]
    have ra: "runApplied env (trig # rest) loop w
                = iterationApplied env trig loop w @ runApplied env rest loop1 w1"
      using True by (simp add: it)
    have "currentEventID loop'
            = last (currentEventID loop # iterationApplied env trig loop w @ runApplied env rest loop1 w1)"
      using r i
      by (simp only: last_applied_append [of "currentEventID loop" "iterationApplied env trig loop w"
            "runApplied env rest loop1 w1"])
    moreover have "getEventID (userID env) w' = getEventID (userID env) w
        \<or> getEventID (userID env) w'
            \<in> set (iterationApplied env trig loop w @ runApplied env rest loop1 w1)"
      using r i by auto
    ultimately show ?thesis unfolding ra by blast
  qed
qed

lemma start_not_running:
  "\<not> isRunning loop \<Longrightarrow>
   run env triggers (loop\<lparr>isRunning := True, hasInternet := True\<rparr>) (record_call GoPollNowCall w)
     = (st1, loop1, w1) \<Longrightarrow>
   start env triggers loop w
     = (st1, if st1 = Running then loop1 else loop1\<lparr>isRunning := False\<rparr>, w1)"
  by (cases st1) (simp_all add: start_def)

text \<open>
  Claim C1. The cursor of the loop moves only to the \<^verbatim>\<open>EventID\<close> of an event that was
  fetched and whose processing succeeded, or to the head event that \<^verbatim>\<open>GetEvent("")\<close>
  returned while the cursor was empty, and no failure moves it back: after
  \<^verbatim>\<open>setFirstEventID\<close>, after \<^verbatim>\<open>processNextEvent\<close> and after any run of the loop, the
  in-memory cursor is the id of the last event applied, or the cursor before when none
  was. The cache changes only by a successful write of the in-memory cursor: after any
  run the persisted cursor is the one persisted before the run or the id of an event
  applied during it. For a loop made by \<^verbatim>\<open>newEventLoop\<close> and started by \<^verbatim>\<open>start\<close>, both
  cursors are the persisted cursor found at construction (empty for a new user) or the
  id of an applied event.
\<close>

theorem cursor_moves_only_to_applied_events:
  "(case setFirstEventID env loop w of
      (err, loop', w') \<Rightarrow>
          currentEventID loop' = last (currentEventID loop # headAdopted env w)
        \<and> (cache w' = cache w
             \<or> (headAdopted env w \<noteq> []
                 \<and> cache w' = (cache w)(userID env \<mapsto> currentEventID loop'))))
   \<and> (case processNextEvent env loop w of
      (m, r, loop', w') \<Rightarrow>
          currentEventID loop' = last (currentEventID loop # eventApplied env loop w)
        \<and> (cache w' = cache w
             \<or> (eventApplied env loop w \<noteq> []
                 \<and> cache w' = (cache w)(userID env \<mapsto> currentEventID loop'))))
   \<and> (case run env triggers loop w of
      (st, loop', w') \<Rightarrow>
          currentEventID loop' = last (currentEventID loop # runApplied env triggers loop w)
        \<and> (getEventID (userID env) w' = getEventID (userID env) w
             \<or> getEventID (userID env) w' \<in> set (runApplied env triggers loop w)))
   \<and> (case start env triggers (newEventLoop env w) w of
      (st, loop', w') \<Rightarrow>
          currentEventID loop'
            = last (getEventID (userID env) w
                    # runApplied env triggers
                        ((newEventLoop env w)\<lparr>isRunning := True, hasInternet := True\<rparr>)
                        (record_call GoPollNowCall w))
        \<and> getEventID (userID env) w'
            \<in> set (getEventID (userID env) w
                    # runApplied env triggers
                        ((newEventLoop env w)\<lparr>isRunning := True, hasInternet := True\<rparr>)
                        (record_call GoPollNowCall w)))"
proof -
  have a: "case setFirstEventID env loop w of
      (err, loop', w') \<Rightarrow>
          currentEventID loop' = last (currentEventID loop # headAdopted env w)
        \<and> (cache w' = cache w
             \<or> (headAdopted env w \<noteq> []
                 \<and> cache w' = (cache w)(userID env \<mapsto> currentEventID loop')))"
    using setFirstEventID_cursor [of env loop w]
    by (cases "setFirstEventID env loop w") auto
  have b: "case processNextEvent env loop w of
      (m, r, loop', w') \<Rightarrow>
          currentEventID loop' = last (currentEventID loop # eventApplied env loop w)
        \<and> (cache w' = cache w
             \<or> (eventApplied env loop w \<noteq> []
                 \<and> cache w' = (cache w)(userID env \<mapsto> currentEventID loop')))"
    using processNextEvent_cursor [of env loop w]
    by (cases "processNextEvent env loop w") auto
  have c: "case run env triggers loop w of
      (st, loop', w') \<Rightarrow>
          currentEventID loop' = last (currentEventID loop # runApplied env triggers loop w)
        \<and> (getEventID (userID env) w' = getEventID (userID env) w
             \<or> getEventID (userID env) w' \<in> set (runApplied env triggers loop w))"
    using run_cursor [of env triggers loop w]
    by (cases "run env triggers loop w") auto
  let ?loop0 = "(newEventLoop env w)\<lparr>isRunning := True, hasInternet := True\<rparr>"
  let ?w0 = "record_call GoPollNowCall w"
  obtain st1 loop1 w1 where r: "run env triggers ?loop0 ?w0 = (st1, loop1, w1)"
    by (cases "run env triggers ?loop0 ?w0") auto
  have s: "start env triggers (newEventLoop env w) w
             = (st1, if st1 = Running then loop1 else loop1\<lparr>isRunning := False\<rparr>, w1)"
    by (rule start_not_running [OF _ r]) (simp add: newEventLoop_def)
  have init: "currentEventID ?loop0 = getEventID (userID env) w"
             "getEventID (userID env) ?w0 = getEventID (userID env) w"
    by (simp_all add: newEventLoop_def getEventID_def)
  have d: "case start env triggers (newEventLoop env w) w of
      (st, loop', w') \<Rightarrow>
          currentEventID loop' = last (getEventID (userID env) w # runApplied env triggers ?loop0 ?w0)
        \<and> getEventID (userID env) w'
            \<in> set (getEventID (userID env) w # runApplied env triggers ?loop0 ?w0)"
    using run_cursor [OF r] init by (auto simp add: s)
  show ?thesis
    using a b c d by blast
qed

theorem cursor_moves_only_to_applied_events_witness:
  "runApplied coldEnv [PollCh, TickerC]
       ((newEventLoop coldEnv emptyWorld)\<lparr>isRunning := True, hasInternet := True\<rparr>)
       (record_call GoPollNowCall emptyWorld)
     = [''e0'', ''e1'']
   \<and> start coldEnv [PollCh, TickerC] (newEventLoop coldEnv emptyWorld) emptyWorld
     = (Running,
        \<lparr> currentEventID = ''e1'', isRunning = True, hasInternet = False \<rparr>,
        \<lparr> calls = [GoPollNowCall, GetEventCall [], SetEventIDCall ''user'' ''e0'',
                   IsSyncFinishedCall, GetEventCall ''e0'', DeleteMessageEventCall ''m2'',
                   SetEventIDCall ''user'' ''e1'', EventProcessedCall,
                   IsSyncFinishedCall, GetEventCall ''e1'', EmitCall InternetOffEvent []],
          cache = [''user'' \<mapsto> ''e1''], imapUpdates = None \<rparr>)"
  using cursor_moves_only_to_applied_events
          [where env = coldEnv and loop = "newEventLoop coldEnv emptyWorld" and w = emptyWorld
             and triggers = "[PollCh, TickerC]"]
  by (simp add: start_def iteration_def start_before_def start_after_def isBeforeFirstStart_def
      setFirstEventID_def newEventLoop_def getEventID_def
      iterationApplied_def headAdopted_def eventApplied_def
      processNextEvent_def processNextEvent_body_def processNextEvent_deferred_def
      processEvent_def processMessages_def processMessage_def
      EventRefreshMail_def afterFetch_def collaborator_defs
      coldEnv_def quietEnv_def deleteM2_def emptyWorld_def emptyEvent_def)

end
